theory Spec2Isabelle
  imports Complex_Main "HOL-Library.Word"
begin

section \<open>JavaScript values used by the capture pipeline\<close>

text \<open>
  A JavaScript string is a sequence of UTF-16 code units. ASCII literals of the source are
  written \<open>lit ''...''\<close>; the Vietnamese messages are given by their code units.
\<close>

type_synonym code_unit = "16 word"
type_synonym jsstring = "code_unit list"

definition lit :: "string \<Rightarrow> jsstring" where
  "lit s = map (\<lambda>c. of_nat (of_char c)) s"

text \<open>\<open>String.prototype.trim\<close> removes the WhiteSpace and LineTerminator code points
  of ECMAScript from both ends.\<close>

definition js_whitespace :: "code_unit \<Rightarrow> bool" where
  "js_whitespace c \<longleftrightarrow>
     c = 0x0009 \<or> c = 0x000A \<or> c = 0x000B \<or> c = 0x000C \<or> c = 0x000D \<or> c = 0x0020 \<or>
     c = 0x00A0 \<or> c = 0x1680 \<or> (0x2000 \<le> c \<and> c \<le> 0x200A) \<or> c = 0x2028 \<or> c = 0x2029 \<or>
     c = 0x202F \<or> c = 0x205F \<or> c = 0x3000 \<or> c = 0xFEFF"

definition trim :: "jsstring \<Rightarrow> jsstring" where
  "trim s = rev (dropWhile js_whitespace (rev (dropWhile js_whitespace s)))"

text \<open>A template literal renders an integer status code in decimal.\<close>

definition digit :: "nat \<Rightarrow> code_unit" where
  "digit d = of_nat (48 + d)"

function dec :: "nat \<Rightarrow> jsstring" where
  "dec n = (if n < 10 then [digit n] else dec (n div 10) @ [digit (n mod 10)])"
  by pat_completeness auto
termination
  by (relation "measure id") auto

declare dec.simps [simp del]

text \<open>
  Values that \<open>response.json()\<close> can produce, together with \<open>undefined\<close>, which a
  missing property reads as. A number is represented by its value; the pipeline only tests
  numbers for truthiness. An object is its list of own properties, keys distinct.
\<close>

datatype jsval =
    JUndefined
  | JNull
  | JBool bool
  | JNum rat
  | JStr jsstring
  | JArr "jsval list"
  | JObj "(jsstring \<times> jsval) list"

fun truthy :: "jsval \<Rightarrow> bool" where
  "truthy JUndefined = False"
| "truthy JNull = False"
| "truthy (JBool b) = b"
| "truthy (JNum n) = (n \<noteq> 0)"
| "truthy (JStr s) = (s \<noteq> [])"
| "truthy (JArr xs) = True"
| "truthy (JObj kvs) = True"

text \<open>
  A thrown value is either an \<open>Error\<close> instance with its message, or some other value
  (the source tests \<open>err instanceof Error\<close>). The text of a TypeError raised by the
  JavaScript engine itself is engine-defined: \<open>eng v p\<close> is the message for a failed
  access to property \<open>p\<close> of \<open>v\<close>.
\<close>

datatype thrown = Err jsstring | NonError

type_synonym engine = "jsval \<Rightarrow> jsstring \<Rightarrow> jsstring"

text \<open>
  \<open>member eng v p\<close> is the expression \<open>v.p\<close> for the property names the source reads
  (\<open>choices\<close>, \<open>message\<close>, \<open>content\<close>, \<open>success\<close>, \<open>audio_base64\<close>, \<open>error\<close>),
  none of which a built-in prototype defines: reading from \<open>undefined\<close> or \<open>null\<close>
  throws a TypeError, an object yields its own property or \<open>undefined\<close>, and every other
  value yields \<open>undefined\<close>.
\<close>

fun member :: "engine \<Rightarrow> jsval \<Rightarrow> jsstring \<Rightarrow> thrown + jsval" where
  "member eng JUndefined p = Inl (Err (eng JUndefined p))"
| "member eng JNull p = Inl (Err (eng JNull p))"
| "member eng (JObj kvs) p = Inr (case map_of kvs p of None \<Rightarrow> JUndefined | Some v \<Rightarrow> v)"
| "member eng v p = Inr JUndefined"

text \<open>\<open>index0 eng v\<close> is the expression \<open>v[0]\<close>.\<close>

fun index0 :: "engine \<Rightarrow> jsval \<Rightarrow> thrown + jsval" where
  "index0 eng JUndefined = Inl (Err (eng JUndefined (lit ''0'')))"
| "index0 eng JNull = Inl (Err (eng JNull (lit ''0'')))"
| "index0 eng (JArr xs) = Inr (case xs of [] \<Rightarrow> JUndefined | x # _ \<Rightarrow> x)"
| "index0 eng (JObj kvs) = Inr (case map_of kvs (lit ''0'') of None \<Rightarrow> JUndefined | Some v \<Rightarrow> v)"
| "index0 eng (JStr s) = Inr (case s of [] \<Rightarrow> JUndefined | c # _ \<Rightarrow> JStr [c])"
| "index0 eng v = Inr JUndefined"

definition and_then :: "'e + 'a \<Rightarrow> ('a \<Rightarrow> 'e + 'b) \<Rightarrow> 'e + 'b" where
  "and_then r f = (case r of Inl e \<Rightarrow> Inl e | Inr v \<Rightarrow> f v)"


section \<open>Data model of the React component (App.tsx)\<close>

record CaptureSettings =
  serverUrl :: jsstring
  instruction :: jsstring
  ttsServerUrl :: jsstring
  enableTTS :: bool
  ttsLanguage :: jsstring

datatype ProcessingState = Idle | Loading | Enhancing | GeneratingSpeech | Success | Error

text \<open>A media stream is known by the identifiers of its tracks.\<close>

datatype MediaStream = MediaStream (getTracks: "nat list")

text \<open>
  The component state, one field for each \<open>useState\<close> cell. The result and audio cells are
  declared as strings in TypeScript but receive whatever the parsed response holds, so they
  are JavaScript values here.
\<close>

record AppState =
  stream :: "MediaStream option"
  isCameraActive :: bool
  processingState :: ProcessingState
  originalResult :: jsval
  enhancedResult :: jsval
  error :: jsstring
  isPlaying :: bool
  audioBase64 :: jsval
  settings :: CaptureSettings
  showSettings :: bool
  previewImage :: "jsstring option"

text \<open>An HTTP request as handed to \<open>fetch\<close>; \<open>body\<close> is the value given to
  \<open>JSON.stringify\<close>.\<close>

record request =
  url :: jsstring
  http_method :: jsstring
  headers :: "(jsstring \<times> jsstring) list"
  body :: jsval

text \<open>
  How a \<open>fetch\<close> settles: the promise rejects, or it resolves with a response. The body
  is given twice, as \<open>response.text()\<close> reads it and as \<open>response.json()\<close> settles
  (rejecting when the body is not JSON); the parser itself belongs to the browser.
\<close>

record response =
  status :: nat
  text_body :: jsstring
  json_body :: "thrown + jsval"

datatype fetch_outcome = Rejected thrown | Resolved response

definition ok :: "response \<Rightarrow> bool" where
  "ok r \<longleftrightarrow> 200 \<le> status r \<and> status r \<le> 299"

text \<open>
  Everything a handler does, in program order: the state setters it calls and the calls it
  makes to the outside (requests, console, media tracks, the video sink).
\<close>

datatype action =
    SetStream "MediaStream option"
  | SetIsCameraActive bool
  | SetProcessingState ProcessingState
  | SetOriginalResult jsval
  | SetEnhancedResult jsval
  | SetError jsstring
  | SetIsPlaying bool
  | SetAudioBase64 jsval
  | SetSettings CaptureSettings
  | SetShowSettings bool
  | SetPreviewImage "jsstring option"
  | Fetch request
  | ConsoleError jsstring
  | TrackStop nat
  | SetSrcObject MediaStream

fun perform :: "action \<Rightarrow> AppState \<Rightarrow> AppState" where
  "perform (SetStream v) s = s\<lparr>stream := v\<rparr>"
| "perform (SetIsCameraActive v) s = s\<lparr>isCameraActive := v\<rparr>"
| "perform (SetProcessingState v) s = s\<lparr>processingState := v\<rparr>"
| "perform (SetOriginalResult v) s = s\<lparr>originalResult := v\<rparr>"
| "perform (SetEnhancedResult v) s = s\<lparr>enhancedResult := v\<rparr>"
| "perform (SetError v) s = s\<lparr>error := v\<rparr>"
| "perform (SetIsPlaying v) s = s\<lparr>isPlaying := v\<rparr>"
| "perform (SetAudioBase64 v) s = s\<lparr>audioBase64 := v\<rparr>"
| "perform (SetSettings v) s = s\<lparr>settings := v\<rparr>"
| "perform (SetShowSettings v) s = s\<lparr>showSettings := v\<rparr>"
| "perform (SetPreviewImage v) s = s\<lparr>previewImage := v\<rparr>"
| "perform (Fetch r) s = s"
| "perform (ConsoleError m) s = s"
| "perform (TrackStop t) s = s"
| "perform (SetSrcObject m) s = s"

definition exec :: "action list \<Rightarrow> AppState \<Rightarrow> AppState" where
  "exec acts s = fold perform acts s"

definition requests :: "action list \<Rightarrow> request list" where
  "requests acts = concat (map (\<lambda>a. case a of Fetch r \<Rightarrow> [r] | _ \<Rightarrow> []) acts)"

definition state_writes :: "action list \<Rightarrow> ProcessingState list" where
  "state_writes acts = concat (map (\<lambda>a. case a of SetProcessingState p \<Rightarrow> [p] | _ \<Rightarrow> []) acts)"

definition error_writes :: "action list \<Rightarrow> jsstring list" where
  "error_writes acts = concat (map (\<lambda>a. case a of SetError m \<Rightarrow> [m] | _ \<Rightarrow> []) acts)"

definition stopped_tracks :: "action list \<Rightarrow> nat list" where
  "stopped_tracks acts = concat (map (\<lambda>a. case a of TrackStop t \<Rightarrow> [t] | _ \<Rightarrow> []) acts)"

subsection \<open>Messages\<close>

definition MSG_CAMERA_DENIED :: jsstring where
  "MSG_CAMERA_DENIED = [0x4B, 0x68, 0xF4, 0x6E, 0x67, 0x20, 0x74, 0x68, 0x1EC3, 0x20, 0x74, 0x72,
     0x75, 0x79, 0x20, 0x63, 0x1EAD, 0x70, 0x20, 0x63, 0x61, 0x6D, 0x65, 0x72, 0x61, 0x2E, 0x20,
     0x56, 0x75, 0x69, 0x20, 0x6C, 0xF2, 0x6E, 0x67, 0x20, 0x63, 0x1EA5, 0x70, 0x20, 0x71, 0x75,
     0x79, 0x1EC1, 0x6E, 0x20, 0x76, 0xE0, 0x20, 0x74, 0x68, 0x1EED, 0x20, 0x6C, 0x1EA1, 0x69, 0x2E]"

definition MSG_CAPTURE_FAILED :: jsstring where
  "MSG_CAPTURE_FAILED = [0x4B, 0x68, 0xF4, 0x6E, 0x67, 0x20, 0x74, 0x68, 0x1EC3, 0x20, 0x63, 0x68,
     0x1EE5, 0x70, 0x20, 0x1EA3, 0x6E, 0x68, 0x2E, 0x20, 0x56, 0x75, 0x69, 0x20, 0x6C, 0xF2, 0x6E,
     0x67, 0x20, 0x74, 0x68, 0x1EED, 0x20, 0x6C, 0x1EA1, 0x69, 0x2E]"

definition MSG_CONNECT_FAILED :: jsstring where
  "MSG_CONNECT_FAILED = [0x4B, 0x68, 0xF4, 0x6E, 0x67, 0x20, 0x74, 0x68, 0x1EC3, 0x20, 0x6B,
     0x1EBF, 0x74, 0x20, 0x6E, 0x1ED1, 0x69, 0x20, 0x111, 0x1EBF, 0x6E, 0x20, 0x73, 0x65, 0x72,
     0x76, 0x65, 0x72, 0x20, 0x41, 0x49]"

definition MSG_GENERIC :: jsstring where
  "MSG_GENERIC = [0x43, 0xF3, 0x20, 0x6C, 0x1ED7, 0x69, 0x20, 0x78, 0x1EA3, 0x79, 0x20, 0x72, 0x61]"

definition MSG_FILE_FAILED :: jsstring where
  "MSG_FILE_FAILED = [0x4B, 0x68, 0xF4, 0x6E, 0x67, 0x20, 0x74, 0x68, 0x1EC3, 0x20, 0x111, 0x1ECD,
     0x63, 0x20, 0x66, 0x69, 0x6C, 0x65, 0x20, 0x1EA3, 0x6E, 0x68, 0x2E]"

definition DEFAULT_INSTRUCTION :: jsstring where
  "DEFAULT_INSTRUCTION = [0x47, 0x69, 0x1EA3, 0x20, 0x73, 0x1EED, 0x20, 0x74, 0xF4, 0x69, 0x20,
     0x6C, 0xE0, 0x20, 0x6D, 0x1ED9, 0x74, 0x20, 0x6E, 0x67, 0x1B0, 0x1EDD, 0x69, 0x20, 0x6B, 0x68,
     0xF4, 0x6E, 0x67, 0x20, 0x6E, 0x68, 0xEC, 0x6E, 0x20, 0x74, 0x68, 0x1EA5, 0x79, 0x20, 0x67,
     0xEC, 0x2C, 0x20, 0x68, 0xE3, 0x79, 0x20, 0x6D, 0xF4, 0x20, 0x74, 0x1EA3, 0x20, 0x6E, 0x68,
     0x1EEF, 0x6E, 0x67, 0x20, 0x67, 0xEC, 0x20, 0x62, 0x1EA1, 0x6E, 0x20, 0x111, 0x61, 0x6E, 0x67,
     0x20, 0x74, 0x68, 0x1EA5, 0x79, 0x20, 0x6D, 0x1ED9, 0x74, 0x20, 0x63, 0xE1, 0x63, 0x68, 0x20,
     0x63, 0xE0, 0x6E, 0x67, 0x20, 0x63, 0x68, 0x69, 0x20, 0x74, 0x69, 0x1EBF, 0x74, 0x20, 0x63,
     0xE0, 0x6E, 0x67, 0x20, 0x74, 0x1ED1, 0x74, 0x2E]"

definition initial_settings :: CaptureSettings where
  "initial_settings = \<lparr>serverUrl = lit ''http://localhost:8080'',
     instruction = DEFAULT_INSTRUCTION,
     ttsServerUrl = lit ''http://localhost:5000'',
     enableTTS = True,
     ttsLanguage = lit ''vi''\<rparr>"

definition initial_state :: AppState where
  "initial_state = \<lparr>stream = None, isCameraActive = False, processingState = Idle,
     originalResult = JStr [], enhancedResult = JStr [], error = [], isPlaying = False,
     audioBase64 = JStr [], settings = initial_settings, showSettings = False,
     previewImage = None\<rparr>"

section \<open>Camera acquisition and frame capture\<close>

text \<open>
  What \<open>captureImage\<close> reads from the page: whether the video and canvas elements are
  mounted, the natural size of the video, whether the canvas gives a 2d context, and the
  data URL that \<open>canvas.toDataURL('image/jpeg', 0.8)\<close> returns for the drawn frame.
\<close>

record Dom =
  video_mounted :: bool
  canvas_mounted :: bool
  videoWidth :: nat
  videoHeight :: nat
  context2d :: bool
  toDataURL :: jsstring

definition captureImage :: "Dom \<Rightarrow> jsstring option" where
  "captureImage pg =
     (if \<not> video_mounted pg \<or> \<not> canvas_mounted pg \<or> videoWidth pg = 0 then None
      else if \<not> context2d pg then None
      else Some (toDataURL pg))"

text \<open>\<open>initCamera\<close> after \<open>getUserMedia\<close> has settled.\<close>

definition initCamera :: "Dom \<Rightarrow> thrown + MediaStream \<Rightarrow> action list" where
  "initCamera pg outcome =
     (case outcome of
        Inr mediaStream \<Rightarrow>
          [SetStream (Some mediaStream)] @
          (if video_mounted pg then [SetSrcObject mediaStream] else []) @
          [SetIsCameraActive True, SetError []]
      | Inl err \<Rightarrow> [ConsoleError (lit ''Error accessing camera:''), SetError MSG_CAMERA_DENIED])"

text \<open>\<open>stopCamera\<close>, on the stream its closure holds.\<close>

definition stopCamera :: "MediaStream option \<Rightarrow> action list" where
  "stopCamera strm =
     (case strm of
        Some ms \<Rightarrow> map TrackStop (getTracks ms) @ [SetStream None]
      | None \<Rightarrow> []) @
     [SetIsCameraActive False]"

text \<open>The cleanup of the effect that depends on \<open>stream\<close>: it runs for the stream that
  is being replaced.\<close>

definition stream_cleanup :: "MediaStream option \<Rightarrow> action list" where
  "stream_cleanup strm = (case strm of Some ms \<Rightarrow> map TrackStop (getTracks ms) | None \<Rightarrow> [])"


section \<open>Inference request\<close>

text \<open>The request \<open>sendToAI\<close> hands to \<open>fetch\<close>.\<close>

definition sendToAI_request :: "CaptureSettings \<Rightarrow> jsstring \<Rightarrow> request" where
  "sendToAI_request cfg imageBase64 =
     \<lparr>url = serverUrl cfg @ lit ''/v1/chat/completions'',
      http_method = lit ''POST'',
      headers = [(lit ''Content-Type'', lit ''application/json'')],
      body = JObj
        [(lit ''max_tokens'', JNum 128),
         (lit ''temperature'', JNum 0),
         (lit ''messages'', JArr
            [JObj
               [(lit ''role'', JStr (lit ''user'')),
                (lit ''content'', JArr
                   [JObj [(lit ''type'', JStr (lit ''image_url'')),
                          (lit ''image_url'', JObj [(lit ''url'', JStr imageBase64)])],
                    JObj [(lit ''type'', JStr (lit ''text'')),
                          (lit ''text'', JStr (instruction cfg))]])]])]\<rparr>"

text \<open>The expression \<open>data.choices[0].message.content\<close>.\<close>

definition first_choice_content :: "engine \<Rightarrow> jsval \<Rightarrow> thrown + jsval" where
  "first_choice_content eng data =
     and_then (member eng data (lit ''choices'')) (\<lambda>choices.
     and_then (index0 eng choices) (\<lambda>choice.
     and_then (member eng choice (lit ''message'')) (\<lambda>message.
     member eng message (lit ''content''))))"

text \<open>The body of the \<open>try\<close> block of \<open>sendToAI\<close>, from the point where \<open>fetch\<close>
  has settled.\<close>

definition sendToAI_try :: "engine \<Rightarrow> fetch_outcome \<Rightarrow> thrown + jsval" where
  "sendToAI_try eng outcome =
     (case outcome of
        Rejected err \<Rightarrow> Inl err
      | Resolved response \<Rightarrow>
          if \<not> ok response
          then Inl (Err (lit ''Server error: '' @ dec (status response) @ lit '' - '' @
                         text_body response))
          else and_then (json_body response) (first_choice_content eng))"

text \<open>The \<open>catch\<close> block rethrows an \<open>Error\<close> that carries the message of the one
  caught, or a fixed message when the caught value is no \<open>Error\<close>.\<close>

definition sendToAI :: "engine \<Rightarrow> fetch_outcome \<Rightarrow> thrown + jsval" where
  "sendToAI eng outcome =
     (case sendToAI_try eng outcome of
        Inl err \<Rightarrow> Inl (Err (case err of Err message \<Rightarrow> message | NonError \<Rightarrow> MSG_CONNECT_FAILED))
      | Inr content \<Rightarrow> Inr content)"

section \<open>Speech synthesis request\<close>

text \<open>
  \<open>generateSpeech\<close> up to its \<open>fetch\<close>: it returns \<open>null\<close> without a request when the
  flag is off or the trimmed text is empty, and it throws a TypeError, outside its
  \<open>try\<close> block, when the text is not a string and so has no \<open>trim\<close> method.
\<close>

definition generateSpeech_request :: "engine \<Rightarrow> CaptureSettings \<Rightarrow> jsval \<Rightarrow> thrown + request option" where
  "generateSpeech_request eng cfg text =
     (if \<not> enableTTS cfg then Inr None
      else case text of
        JStr s \<Rightarrow>
          if trim s = [] then Inr None
          else Inr (Some
            \<lparr>url = ttsServerUrl cfg @ lit ''/tts'',
             http_method = lit ''POST'',
             headers = [(lit ''Content-Type'', lit ''application/json'')],
             body = JObj [(lit ''text'', JStr s), (lit ''language'', JStr (ttsLanguage cfg))]\<rparr>)
      | _ \<Rightarrow> Inl (Err (eng text (lit ''trim''))))"

text \<open>
  The body of the \<open>try\<close> block of \<open>generateSpeech\<close> once \<open>fetch\<close> has settled. The
  result \<open>None\<close> stands for an exception: the \<open>catch\<close> block only logs the value it
  catches, so the value is not kept. Console calls are recorded by their first argument.
\<close>

definition generateSpeech_try :: "engine \<Rightarrow> fetch_outcome \<Rightarrow> action list \<times> jsval option" where
  "generateSpeech_try eng outcome =
     (case outcome of
        Rejected err \<Rightarrow> ([], None)
      | Resolved response \<Rightarrow>
          if \<not> ok response then ([ConsoleError (lit ''TTS API error:'')], None)
          else (case json_body response of
                  Inl err \<Rightarrow> ([], None)
                | Inr data \<Rightarrow>
                    (case member eng data (lit ''success'') of
                       Inl err \<Rightarrow> ([], None)
                     | Inr success \<Rightarrow>
                         if truthy success
                         then (case member eng data (lit ''audio_base64'') of
                                 Inl err \<Rightarrow> ([], None)
                               | Inr audio_base64 \<Rightarrow>
                                   if truthy audio_base64 then ([], Some audio_base64)
                                   else ([], None))
                         else ([], None))))"

text \<open>With the \<open>catch\<close> block: the exception is logged and \<open>null\<close> (here \<open>None\<close>) is
  returned.\<close>

definition generateSpeech :: "engine \<Rightarrow> fetch_outcome \<Rightarrow> action list \<times> jsval option" where
  "generateSpeech eng outcome =
     (case generateSpeech_try eng outcome of
        (logged, Some audio_base64) \<Rightarrow> (logged, Some audio_base64)
      | (logged, None) \<Rightarrow> (logged @ [ConsoleError (lit ''Error generating speech:'')], None))"

section \<open>Pipeline orchestration\<close>

text \<open>
  A handler runs until it awaits something of the outside world; what remains of it is a
  task, resumed when that settles. The awaits inside \<open>sendToAI\<close> and \<open>generateSpeech\<close>
  (the fetch, then the body) are taken as one, since nothing is written between them. A
  task keeps the settings of the closure it was created in.
\<close>

datatype task =
    AwaitingCamera
  | ReadingFile CaptureSettings
  | CaptureAwaitingInference CaptureSettings
  | CaptureAwaitingSpeech
  | UploadAwaitingInference CaptureSettings
  | UploadAwaitingSpeech
  | Finished

subsection \<open>handleCapture\<close>

text \<open>From the click to the await of \<open>sendToAI\<close>.\<close>

definition handleCapture :: "CaptureSettings \<Rightarrow> Dom \<Rightarrow> action list \<times> task" where
  "handleCapture cfg pg =
     (case captureImage pg of
        None \<Rightarrow> ([SetError MSG_CAPTURE_FAILED], Finished)
      | Some imageBase64 \<Rightarrow>
          if imageBase64 = [] then ([SetError MSG_CAPTURE_FAILED], Finished)
          else ([SetPreviewImage (Some imageBase64),
                 SetProcessingState Loading,
                 SetError [],
                 SetOriginalResult (JStr []),
                 SetEnhancedResult (JStr []),
                 SetAudioBase64 (JStr []),
                 SetIsPlaying False,
                 Fetch (sendToAI_request cfg imageBase64)],
                CaptureAwaitingInference cfg))"

text \<open>The \<open>catch\<close> block of \<open>handleCapture\<close>.\<close>

definition handleCapture_catch :: "thrown \<Rightarrow> action list" where
  "handleCapture_catch err =
     [SetError (case err of Err message \<Rightarrow> message | NonError \<Rightarrow> MSG_GENERIC),
      SetProcessingState Error]"

text \<open>From the settlement of \<open>sendToAI\<close> to the await of \<open>generateSpeech\<close>, or to the
  end when there is nothing to await.\<close>

definition handleCapture_inferred :: "engine \<Rightarrow> CaptureSettings \<Rightarrow> fetch_outcome \<Rightarrow> action list \<times> task" where
  "handleCapture_inferred eng cfg outcome =
     (case sendToAI eng outcome of
        Inl err \<Rightarrow> (handleCapture_catch err, Finished)
      | Inr aiResult \<Rightarrow>
          if enableTTS cfg
          then (case generateSpeech_request eng cfg aiResult of
                  Inl err \<Rightarrow>
                    ([SetOriginalResult aiResult, SetEnhancedResult aiResult,
                      SetProcessingState GeneratingSpeech] @ handleCapture_catch err, Finished)
                | Inr None \<Rightarrow>
                    ([SetOriginalResult aiResult, SetEnhancedResult aiResult,
                      SetProcessingState GeneratingSpeech, SetProcessingState Success], Finished)
                | Inr (Some req) \<Rightarrow>
                    ([SetOriginalResult aiResult, SetEnhancedResult aiResult,
                      SetProcessingState GeneratingSpeech, Fetch req], CaptureAwaitingSpeech))
          else ([SetOriginalResult aiResult, SetEnhancedResult aiResult,
                 SetProcessingState Success], Finished))"

text \<open>From the settlement of \<open>generateSpeech\<close> to the end.\<close>

definition handleCapture_spoken :: "engine \<Rightarrow> fetch_outcome \<Rightarrow> action list \<times> task" where
  "handleCapture_spoken eng outcome =
     (case generateSpeech eng outcome of
        (logged, audioData) \<Rightarrow>
          (logged @
           (case audioData of
              Some audio \<Rightarrow> if truthy audio then [SetAudioBase64 audio] else []
            | None \<Rightarrow> []) @
           [SetProcessingState Success], Finished))"

subsection \<open>handleUploadImage\<close>

text \<open>The change event of the file input: \<open>chosen\<close> tells whether a file was selected.\<close>

definition handleUploadImage :: "CaptureSettings \<Rightarrow> bool \<Rightarrow> action list \<times> task" where
  "handleUploadImage cfg chosen = (if \<not> chosen then ([], Finished) else ([], ReadingFile cfg))"

text \<open>The \<open>onload\<close> callback of the reader, up to the await of \<open>sendToAI\<close>;
  \<open>result\<close> is \<open>event.target?.result\<close>.\<close>

definition handleUploadImage_loaded :: "CaptureSettings \<Rightarrow> jsstring option \<Rightarrow> action list \<times> task" where
  "handleUploadImage_loaded cfg result =
     (case result of
        None \<Rightarrow> ([SetError MSG_FILE_FAILED], Finished)
      | Some imageBase64 \<Rightarrow>
          if imageBase64 = [] then ([SetError MSG_FILE_FAILED], Finished)
          else ([SetPreviewImage (Some imageBase64),
                 SetProcessingState Loading,
                 SetError [],
                 SetOriginalResult (JStr []),
                 SetEnhancedResult (JStr []),
                 SetAudioBase64 (JStr []),
                 SetIsPlaying False,
                 Fetch (sendToAI_request cfg imageBase64)],
                UploadAwaitingInference cfg))"

definition handleUploadImage_catch :: "thrown \<Rightarrow> action list" where
  "handleUploadImage_catch err =
     [SetError (case err of Err message \<Rightarrow> message | NonError \<Rightarrow> MSG_GENERIC),
      SetProcessingState Error]"

definition handleUploadImage_inferred :: "engine \<Rightarrow> CaptureSettings \<Rightarrow> fetch_outcome \<Rightarrow> action list \<times> task" where
  "handleUploadImage_inferred eng cfg outcome =
     (case sendToAI eng outcome of
        Inl err \<Rightarrow> (handleUploadImage_catch err, Finished)
      | Inr aiResult \<Rightarrow>
          if enableTTS cfg
          then (case generateSpeech_request eng cfg aiResult of
                  Inl err \<Rightarrow>
                    ([SetOriginalResult aiResult, SetEnhancedResult aiResult,
                      SetProcessingState GeneratingSpeech] @ handleUploadImage_catch err, Finished)
                | Inr None \<Rightarrow>
                    ([SetOriginalResult aiResult, SetEnhancedResult aiResult,
                      SetProcessingState GeneratingSpeech, SetProcessingState Success], Finished)
                | Inr (Some req) \<Rightarrow>
                    ([SetOriginalResult aiResult, SetEnhancedResult aiResult,
                      SetProcessingState GeneratingSpeech, Fetch req], UploadAwaitingSpeech))
          else ([SetOriginalResult aiResult, SetEnhancedResult aiResult,
                 SetProcessingState Success], Finished))"

definition handleUploadImage_spoken :: "engine \<Rightarrow> fetch_outcome \<Rightarrow> action list \<times> task" where
  "handleUploadImage_spoken eng outcome =
     (case generateSpeech eng outcome of
        (logged, audioData) \<Rightarrow>
          (logged @
           (case audioData of
              Some audio \<Rightarrow> if truthy audio then [SetAudioBase64 audio] else []
            | None \<Rightarrow> []) @
           [SetProcessingState Success], Finished))"


subsection \<open>One pipeline run, start to end\<close>

text \<open>The actions of one run of \<open>handleCapture\<close> when nothing else happens in between:
  the inference request settles as \<open>inference\<close> and the speech request, if one is made,
  as \<open>speech\<close>.\<close>

definition capture_run :: "engine \<Rightarrow> CaptureSettings \<Rightarrow> Dom \<Rightarrow> fetch_outcome \<Rightarrow> fetch_outcome \<Rightarrow> action list" where
  "capture_run eng cfg pg inference speech =
     (case handleCapture cfg pg of
        (a1, CaptureAwaitingInference cfg') \<Rightarrow>
          (case handleCapture_inferred eng cfg' inference of
             (a2, CaptureAwaitingSpeech) \<Rightarrow> a1 @ a2 @ fst (handleCapture_spoken eng speech)
           | (a2, _) \<Rightarrow> a1 @ a2)
      | (a1, _) \<Rightarrow> a1)"

text \<open>The same for an upload whose reader delivers \<open>result\<close>.\<close>

definition upload_run :: "engine \<Rightarrow> CaptureSettings \<Rightarrow> jsstring option \<Rightarrow> fetch_outcome \<Rightarrow> fetch_outcome \<Rightarrow> action list" where
  "upload_run eng cfg result inference speech =
     (case handleUploadImage_loaded cfg result of
        (a1, UploadAwaitingInference cfg') \<Rightarrow>
          (case handleUploadImage_inferred eng cfg' inference of
             (a2, UploadAwaitingSpeech) \<Rightarrow> a1 @ a2 @ fst (handleUploadImage_spoken eng speech)
           | (a2, _) \<Rightarrow> a1 @ a2)
      | (a1, _) \<Rightarrow> a1)"

section \<open>The component as a transition system\<close>

text \<open>
  The component state, the tasks that await the outside world, and the trace of all
  actions so far. An event is a user action or the settlement of what a task awaits.
\<close>

record System =
  app :: AppState
  tasks :: "task list"
  trace :: "action list"

definition initial_system :: System where
  "initial_system = \<lparr>app = initial_state, tasks = [], trace = []\<rparr>"

text \<open>The \<open>disabled\<close> attribute of the capture button.\<close>

definition capture_disabled :: "AppState \<Rightarrow> bool" where
  "capture_disabled s \<longleftrightarrow>
     processingState s = Loading \<or> processingState s = Enhancing \<or>
     processingState s = GeneratingSpeech"

datatype settings_edit =
    EditServerUrl jsstring
  | EditInstruction jsstring
  | EditEnableTTS bool
  | EditTtsServerUrl jsstring
  | EditTtsLanguage jsstring

fun edit_visible :: "AppState \<Rightarrow> settings_edit \<Rightarrow> bool" where
  "edit_visible s (EditServerUrl v) = showSettings s"
| "edit_visible s (EditInstruction v) = showSettings s"
| "edit_visible s (EditEnableTTS v) = showSettings s"
| "edit_visible s (EditTtsServerUrl v) = (showSettings s \<and> enableTTS (settings s))"
| "edit_visible s (EditTtsLanguage v) =
     (showSettings s \<and> enableTTS (settings s) \<and> (v = lit ''vi'' \<or> v = lit ''en''))"

fun apply_edit :: "settings_edit \<Rightarrow> CaptureSettings \<Rightarrow> CaptureSettings" where
  "apply_edit (EditServerUrl v) prev = prev\<lparr>serverUrl := v\<rparr>"
| "apply_edit (EditInstruction v) prev = prev\<lparr>instruction := v\<rparr>"
| "apply_edit (EditEnableTTS v) prev = prev\<lparr>enableTTS := v\<rparr>"
| "apply_edit (EditTtsServerUrl v) prev = prev\<lparr>ttsServerUrl := v\<rparr>"
| "apply_edit (EditTtsLanguage v) prev = prev\<lparr>ttsLanguage := v\<rparr>"

datatype event =
    ClickInitCamera
  | CameraSettled nat Dom "thrown + MediaStream"
  | ClickStop
  | ClickCapture Dom
  | ChooseFile bool
  | FileLoaded nat "jsstring option"
  | InferenceSettled nat fetch_outcome
  | SpeechSettled nat fetch_outcome
  | EditSettings settings_edit
  | ToggleSettings

definition task_at :: "task list \<Rightarrow> nat \<Rightarrow> task" where
  "task_at ts i = (if i < length ts then ts ! i else Finished)"

text \<open>Committing the actions of a handler: the setters take effect, the actions are
  appended to the trace, and when the stream cell changed the cleanup of the old stream
  runs.\<close>

definition commit :: "System \<Rightarrow> action list \<Rightarrow> System" where
  "commit sys acts =
     (let s' = exec acts (app sys) in
      sys\<lparr>app := s',
          trace := trace sys @ acts @
            (if stream s' \<noteq> stream (app sys) then stream_cleanup (stream (app sys)) else [])\<rparr>)"

definition spawn :: "System \<Rightarrow> action list \<times> task \<Rightarrow> System" where
  "spawn sys r = (commit sys (fst r))\<lparr>tasks := tasks sys @ [snd r]\<rparr>"

definition resume :: "System \<Rightarrow> nat \<Rightarrow> action list \<times> task \<Rightarrow> System" where
  "resume sys i r = (commit sys (fst r))\<lparr>tasks := (tasks sys)[i := snd r]\<rparr>"

text \<open>
  \<open>step eng sys e\<close> is \<open>None\<close> when the event cannot happen in \<open>sys\<close>: the control is
  not rendered or is disabled, or the task is not waiting for that settlement. The camera
  start button is rendered while the camera is inactive, the capture and stop buttons
  while it is active, the upload button always.
\<close>

fun step :: "engine \<Rightarrow> System \<Rightarrow> event \<Rightarrow> System option" where
  "step eng sys ClickInitCamera =
     (if \<not> isCameraActive (app sys) then Some (spawn sys ([], AwaitingCamera)) else None)"
| "step eng sys (CameraSettled i pg outcome) =
     (case task_at (tasks sys) i of
        AwaitingCamera \<Rightarrow> Some (resume sys i (initCamera pg outcome, Finished))
      | _ \<Rightarrow> None)"
| "step eng sys ClickStop =
     (if isCameraActive (app sys) then Some (commit sys (stopCamera (stream (app sys)))) else None)"
| "step eng sys (ClickCapture pg) =
     (if isCameraActive (app sys) \<and> \<not> capture_disabled (app sys)
      then Some (spawn sys (handleCapture (settings (app sys)) pg)) else None)"
| "step eng sys (ChooseFile chosen) =
     Some (spawn sys (handleUploadImage (settings (app sys)) chosen))"
| "step eng sys (FileLoaded i result) =
     (case task_at (tasks sys) i of
        ReadingFile cfg \<Rightarrow> Some (resume sys i (handleUploadImage_loaded cfg result))
      | _ \<Rightarrow> None)"
| "step eng sys (InferenceSettled i outcome) =
     (case task_at (tasks sys) i of
        CaptureAwaitingInference cfg \<Rightarrow> Some (resume sys i (handleCapture_inferred eng cfg outcome))
      | UploadAwaitingInference cfg \<Rightarrow> Some (resume sys i (handleUploadImage_inferred eng cfg outcome))
      | _ \<Rightarrow> None)"
| "step eng sys (SpeechSettled i outcome) =
     (case task_at (tasks sys) i of
        CaptureAwaitingSpeech \<Rightarrow> Some (resume sys i (handleCapture_spoken eng outcome))
      | UploadAwaitingSpeech \<Rightarrow> Some (resume sys i (handleUploadImage_spoken eng outcome))
      | _ \<Rightarrow> None)"
| "step eng sys (EditSettings e) =
     (if edit_visible (app sys) e
      then Some (commit sys [SetSettings (apply_edit e (settings (app sys)))]) else None)"
| "step eng sys ToggleSettings =
     Some (commit sys [SetShowSettings (\<not> showSettings (app sys))])"

fun steps :: "engine \<Rightarrow> System \<Rightarrow> event list \<Rightarrow> System option" where
  "steps eng sys [] = Some sys"
| "steps eng sys (e # es) = (case step eng sys e of None \<Rightarrow> None | Some sys' \<Rightarrow> steps eng sys' es)"

inductive reachable :: "engine \<Rightarrow> System \<Rightarrow> bool" for eng :: engine where
  reachable_initial: "reachable eng initial_system"
| reachable_step: "reachable eng sys \<Longrightarrow> step eng sys e = Some sys' \<Longrightarrow> reachable eng sys'"

text \<open>A pipeline is in flight while its task awaits the inference or the speech request.\<close>

fun pipeline_in_flight :: "task \<Rightarrow> bool" where
  "pipeline_in_flight (CaptureAwaitingInference cfg) = True"
| "pipeline_in_flight CaptureAwaitingSpeech = True"
| "pipeline_in_flight (UploadAwaitingInference cfg) = True"
| "pipeline_in_flight UploadAwaitingSpeech = True"
| "pipeline_in_flight t = False"

definition in_flight :: "System \<Rightarrow> nat" where
  "in_flight sys = length (filter pipeline_in_flight (tasks sys))"


section \<open>The standalone page (index.html)\<close>

text \<open>
  The globals of the script and the form fields it reads and writes. \<open>pending\<close> counts
  the calls of \<open>sendData\<close> that await their request. A value assigned to the response
  text area is converted to a string by the browser: a string is kept, and \<open>conv\<close>
  stands for the conversion of every other value.
\<close>

record Page =
  has_stream :: bool
  intervalId :: bool
  isProcessing :: bool
  responseText :: jsstring
  baseURL :: jsstring
  instructionText :: jsstring
  inputs_disabled :: bool
  startButton_text :: jsstring
  pending :: nat

definition HTML_INSTRUCTION :: jsstring where
  "HTML_INSTRUCTION = [0x4D, 0xF4, 0x20, 0x74, 0x1EA3, 0x20, 0x6E, 0x68, 0x1EEF, 0x6E, 0x67, 0x20,
     0x67, 0xEC, 0x20, 0x62, 0x1EA1, 0x6E, 0x20, 0x111, 0x61, 0x6E, 0x67, 0x20, 0x74, 0x68, 0x1EA5,
     0x79, 0x20, 0x20, 0x6D, 0x1ED9, 0x74, 0x20, 0x63, 0xE1, 0x63, 0x68, 0x20, 0x74, 0x68, 0x1EAD,
     0x74, 0x20, 0x63, 0x68, 0x69, 0x20, 0x74, 0x69, 0x1EBF, 0x74, 0x2C, 0x20, 0x64, 0x1EC5, 0x20,
     0x68, 0xEC, 0x6E, 0x68, 0x20, 0x64, 0x75, 0x6E, 0x67]"

definition HTML_READY :: jsstring where
  "HTML_READY = [0x53, 0x1EB5, 0x6E, 0x20, 0x73, 0xE0, 0x6E, 0x67, 0x2C, 0x20, 0x63, 0x61, 0x6D,
     0x65, 0x72, 0x61, 0x20, 0x111, 0xE3, 0x20, 0x111, 0x1B0, 0x1EE3, 0x63, 0x20, 0x6B, 0x68,
     0x1EDF, 0x69, 0x20, 0x111, 0x1ED9, 0x6E, 0x67, 0x2E]"

definition initial_page :: Page where
  "initial_page = \<lparr>has_stream = False, intervalId = False, isProcessing = False,
     responseText = [], baseURL = lit ''http://localhost:8080'',
     instructionText = HTML_INSTRUCTION, inputs_disabled = False,
     startButton_text = lit ''Start'', pending = 0\<rparr>"

definition dom_string :: "(jsval \<Rightarrow> jsstring) \<Rightarrow> jsval \<Rightarrow> jsstring" where
  "dom_string conv v = (case v of JStr s \<Rightarrow> s | _ \<Rightarrow> conv v)"

definition sendChatCompletionRequest_request :: "jsstring \<Rightarrow> jsstring \<Rightarrow> jsstring \<Rightarrow> request" where
  "sendChatCompletionRequest_request base instr imageBase64URL =
     \<lparr>url = base @ lit ''/v1/chat/completions'',
      http_method = lit ''POST'',
      headers = [(lit ''Content-Type'', lit ''application/json'')],
      body = JObj
        [(lit ''max_tokens'', JNum 128),
         (lit ''temperature'', JNum 0),
         (lit ''messages'', JArr
            [JObj
               [(lit ''role'', JStr (lit ''user'')),
                (lit ''content'', JArr
                   [JObj [(lit ''type'', JStr (lit ''image_url'')),
                          (lit ''image_url'', JObj [(lit ''url'', JStr imageBase64URL)])],
                    JObj [(lit ''type'', JStr (lit ''text'')),
                          (lit ''text'', JStr instr)]])]])]\<rparr>"

text \<open>\<open>sendChatCompletionRequest\<close> once \<open>fetch\<close> has settled: a response that is not
  ok is returned as a message, not thrown.\<close>

definition sendChatCompletionRequest :: "engine \<Rightarrow> fetch_outcome \<Rightarrow> thrown + jsval" where
  "sendChatCompletionRequest eng outcome =
     (case outcome of
        Rejected err \<Rightarrow> Inl err
      | Resolved response \<Rightarrow>
          if \<not> ok response
          then Inr (JStr (lit ''Server error: '' @ dec (status response) @ lit '' - '' @
                          text_body response))
          else and_then (json_body response) (first_choice_content eng))"

text \<open>\<open>captureImage\<close> of the page: without a 2d context the call \<open>context.drawImage\<close>
  throws.\<close>

definition page_captureImage :: "engine \<Rightarrow> Page \<Rightarrow> Dom \<Rightarrow> thrown + jsstring option" where
  "page_captureImage eng page pg =
     (if \<not> has_stream page \<or> videoWidth pg = 0 then Inr None
      else if \<not> context2d pg then Inl (Err (eng JNull (lit ''drawImage'')))
      else Inr (Some (toDataURL pg)))"

text \<open>\<open>sendData\<close> up to its await: the page after it, and the request it issued if any.
  An exception of \<open>captureImage\<close> is outside the \<open>try\<close> block and ends the call.\<close>

definition sendData :: "engine \<Rightarrow> Page \<Rightarrow> Dom \<Rightarrow> Page \<times> request option" where
  "sendData eng page pg =
     (if \<not> isProcessing page then (page, None)
      else case page_captureImage eng page pg of
        Inl err \<Rightarrow> (page, None)
      | Inr None \<Rightarrow>
          (page\<lparr>responseText := lit ''Failed to capture image. Stream might not be active.''\<rparr>, None)
      | Inr (Some imageBase64URL) \<Rightarrow>
          if imageBase64URL = []
          then (page\<lparr>responseText := lit ''Failed to capture image. Stream might not be active.''\<rparr>,
                None)
          else (page\<lparr>pending := pending page + 1\<rparr>,
                Some (sendChatCompletionRequest_request (baseURL page) (instructionText page)
                        imageBase64URL)))"

text \<open>\<open>sendData\<close> after the await. The message of a caught value that is no \<open>Error\<close>
  reads as \<open>undefined\<close>.\<close>

definition sendData_settled :: "engine \<Rightarrow> (jsval \<Rightarrow> jsstring) \<Rightarrow> Page \<Rightarrow> fetch_outcome \<Rightarrow> Page" where
  "sendData_settled eng conv page outcome =
     (case sendChatCompletionRequest eng outcome of
        Inr response \<Rightarrow> page\<lparr>responseText := dom_string conv response, pending := pending page - 1\<rparr>
      | Inl err \<Rightarrow>
          page\<lparr>responseText :=
                 lit ''Error: '' @ (case err of Err message \<Rightarrow> message | NonError \<Rightarrow> lit ''undefined''),
               pending := pending page - 1\<rparr>)"

definition handleStart :: "engine \<Rightarrow> Page \<Rightarrow> Dom \<Rightarrow> Page \<times> request option" where
  "handleStart eng page pg =
     (if \<not> has_stream page
      then (page\<lparr>responseText := lit ''Camera not available. Cannot start.''\<rparr>, None)
      else case sendData eng
             (page\<lparr>isProcessing := True, startButton_text := lit ''Stop'',
                   inputs_disabled := True, responseText := lit ''Processing started...''\<rparr>) pg of
        (page', req) \<Rightarrow> (page'\<lparr>intervalId := True\<rparr>, req))"

definition handleStop :: "Page \<Rightarrow> Page" where
  "handleStop page =
     (let page' = page\<lparr>isProcessing := False, intervalId := False,
                       startButton_text := lit ''Start'', inputs_disabled := False\<rparr>
      in if take (length (lit ''Processing started...'')) (responseText page') =
            lit ''Processing started...''
         then page'\<lparr>responseText := lit ''Processing stopped.''\<rparr> else page')"

datatype page_event =
    PageCameraSettled bool jsstring
  | ClickStartButton Dom
  | TimerTick Dom
  | RequestSettled fetch_outcome

text \<open>The events of the page: the camera request made on load settles (on failure with
  the text built from the error), the start button is clicked, the interval timer
  fires, a pending request settles. The requests issued are collected in a trace.\<close>

fun page_step :: "engine \<Rightarrow> (jsval \<Rightarrow> jsstring) \<Rightarrow> Page \<times> request list \<Rightarrow> page_event \<Rightarrow> (Page \<times> request list) option" where
  "page_step eng conv (page, reqs) (PageCameraSettled granted failure_text) =
     (if granted then Some (page\<lparr>has_stream := True, responseText := HTML_READY\<rparr>, reqs)
      else Some (page\<lparr>responseText := failure_text\<rparr>, reqs))"
| "page_step eng conv (page, reqs) (ClickStartButton pg) =
     (if isProcessing page then Some (handleStop page, reqs)
      else case handleStart eng page pg of
        (page', req) \<Rightarrow> Some (page', reqs @ (case req of None \<Rightarrow> [] | Some r \<Rightarrow> [r])))"
| "page_step eng conv (page, reqs) (TimerTick pg) =
     (if intervalId page
      then case sendData eng page pg of
        (page', req) \<Rightarrow> Some (page', reqs @ (case req of None \<Rightarrow> [] | Some r \<Rightarrow> [r]))
      else None)"
| "page_step eng conv (page, reqs) (RequestSettled outcome) =
     (if 0 < pending page then Some (sendData_settled eng conv page outcome, reqs) else None)"

fun page_steps :: "engine \<Rightarrow> (jsval \<Rightarrow> jsstring) \<Rightarrow> Page \<times> request list \<Rightarrow> page_event list \<Rightarrow> (Page \<times> request list) option" where
  "page_steps eng conv st [] = Some st"
| "page_steps eng conv st (e # es) =
     (case page_step eng conv st e of None \<Rightarrow> None | Some st' \<Rightarrow> page_steps eng conv st' es)"

section \<open>Auxiliary definitions for the proofs\<close>

text \<open>The setter calls with which both handlers enter \<open>loading\<close>, followed by the
  inference request.\<close>

definition entry_actions :: "CaptureSettings \<Rightarrow> jsstring \<Rightarrow> action list" where
  "entry_actions cfg img = [SetPreviewImage (Some img), SetProcessingState Loading, SetError [],
     SetOriginalResult (JStr []), SetEnhancedResult (JStr []), SetAudioBase64 (JStr []),
     SetIsPlaying False, Fetch (sendToAI_request cfg img)]"

subsection \<open>Concrete inputs\<close>

definition demo_engine :: engine where
  "demo_engine v p = lit ''Cannot read properties'' "

definition demo_image :: jsstring where
  "demo_image = lit ''data:image/jpeg;base64,/9j/4AAQSkZJRg==''"

definition demo_page :: Dom where
  "demo_page = \<lparr>video_mounted = True, canvas_mounted = True, videoWidth = 640,
     videoHeight = 480, context2d = True, toDataURL = demo_image\<rparr>"

definition blank_page :: Dom where
  "blank_page = \<lparr>video_mounted = True, canvas_mounted = True, videoWidth = 0,
     videoHeight = 0, context2d = True, toDataURL = lit ''data:,''\<rparr>"

definition demo_stream :: MediaStream where
  "demo_stream = MediaStream [0]"

definition http_500 :: response where
  "http_500 = \<lparr>status = 500, text_body = lit ''model not loaded'',
     json_body = Inl (Err (lit ''Unexpected token''))\<rparr>"

definition inference_ok :: response where
  "inference_ok = \<lparr>status = 200, text_body = [],
     json_body = Inr (JObj [(lit ''choices'', JArr [JObj [(lit ''message'',
       JObj [(lit ''role'', JStr (lit ''assistant'')),
             (lit ''content'', JStr (lit ''A desk with a laptop.''))])]])])\<rparr>"

definition inference_blank :: response where
  "inference_blank = \<lparr>status = 200, text_body = [],
     json_body = Inr (JObj [(lit ''choices'', JArr [JObj [(lit ''message'',
       JObj [(lit ''content'', JStr [])])]])])\<rparr>"

definition tts_refused :: response where
  "tts_refused = \<lparr>status = 200, text_body = [],
     json_body = Inr (JObj [(lit ''success'', JBool False), (lit ''error'', JStr (lit ''x''))])\<rparr>"

definition camera_on :: System where
  "camera_on = \<lparr>app = initial_state\<lparr>stream := Some demo_stream, isCameraActive := True\<rparr>,
     tasks = [Finished],
     trace = [SetStream (Some demo_stream), SetSrcObject demo_stream, SetIsCameraActive True,
              SetError []]\<rparr>"

text \<open>\<open>field v name\<close> is the own property \<open>name\<close> of the object \<open>v\<close>, if \<open>v\<close> is an
  object that has it.\<close>

definition field :: "jsval \<Rightarrow> string \<Rightarrow> jsval option" where
  "field v name = (case v of JObj kvs \<Rightarrow> map_of kvs (lit name) | _ \<Rightarrow> None)"

definition tts_ok :: response where
  "tts_ok = \<lparr>status = 200, text_body = [],
     json_body = Inr (JObj [(lit ''success'', JBool True),
                            (lit ''audio_base64'', JStr (lit ''UklGRg==''))])\<rparr>"

text \<open>A capture followed by an upload before the capture's inference request settles,
  and the same on the page: a timer tick while the first request is pending.\<close>

definition overlap_events :: "event list" where
  "overlap_events =
     [ClickInitCamera, CameraSettled 0 demo_page (Inr demo_stream), ClickCapture demo_page,
      ChooseFile True, FileLoaded 2 (Some demo_image)]"

definition page_overlap_events :: "page_event list" where
  "page_overlap_events = [PageCameraSettled True [], ClickStartButton demo_page, TimerTick demo_page]"

definition demo_conv :: "jsval \<Rightarrow> jsstring" where
  "demo_conv v = lit ''[object Object]''"

section \<open>Basic facts\<close>

lemma exec_Nil [simp]: "exec [] s = s"
  by (simp add: exec_def)

lemma exec_Cons [simp]: "exec (a # acts) s = exec acts (perform a s)"
  by (simp add: exec_def)

lemma exec_append [simp]: "exec (xs @ ys) s = exec ys (exec xs s)"
  by (simp add: exec_def)

lemma requests_Nil [simp]: "requests [] = []"
  by (simp add: requests_def)

lemma requests_Cons [simp]:
  "requests (a # acts) = (case a of Fetch r \<Rightarrow> [r] | _ \<Rightarrow> []) @ requests acts"
  by (simp add: requests_def)

lemma requests_append [simp]: "requests (xs @ ys) = requests xs @ requests ys"
  by (simp add: requests_def)

lemma state_writes_Nil [simp]: "state_writes [] = []"
  by (simp add: state_writes_def)

lemma state_writes_Cons [simp]:
  "state_writes (a # acts) =
     (case a of SetProcessingState p \<Rightarrow> [p] | _ \<Rightarrow> []) @ state_writes acts"
  by (simp add: state_writes_def)

lemma state_writes_append [simp]:
  "state_writes (xs @ ys) = state_writes xs @ state_writes ys"
  by (simp add: state_writes_def)

lemma error_writes_Nil [simp]: "error_writes [] = []"
  by (simp add: error_writes_def)

lemma error_writes_Cons [simp]:
  "error_writes (a # acts) = (case a of SetError m \<Rightarrow> [m] | _ \<Rightarrow> []) @ error_writes acts"
  by (simp add: error_writes_def)

lemma error_writes_append [simp]:
  "error_writes (xs @ ys) = error_writes xs @ error_writes ys"
  by (simp add: error_writes_def)

lemma stopped_tracks_Nil [simp]: "stopped_tracks [] = []"
  by (simp add: stopped_tracks_def)

lemma stopped_tracks_Cons [simp]:
  "stopped_tracks (a # acts) = (case a of TrackStop t \<Rightarrow> [t] | _ \<Rightarrow> []) @ stopped_tracks acts"
  by (simp add: stopped_tracks_def)

lemma stopped_tracks_append [simp]:
  "stopped_tracks (xs @ ys) = stopped_tracks xs @ stopped_tracks ys"
  by (simp add: stopped_tracks_def)

lemma stopped_tracks_map [simp]: "stopped_tracks (map TrackStop ts) = ts"
  by (induction ts) simp_all

subsection \<open>The two handlers, segment by segment\<close>

lemma handleCapture_frame:
  "captureImage pg = Some img \<Longrightarrow> img \<noteq> [] \<Longrightarrow>
   handleCapture cfg pg = (entry_actions cfg img, CaptureAwaitingInference cfg)"
  by (simp add: handleCapture_def entry_actions_def)

lemma handleUploadImage_loaded_image:
  "img \<noteq> [] \<Longrightarrow>
   handleUploadImage_loaded cfg (Some img) = (entry_actions cfg img, UploadAwaitingInference cfg)"
  by (simp add: handleUploadImage_loaded_def entry_actions_def)

lemma catch_same: "handleUploadImage_catch err = handleCapture_catch err"
  by (simp add: handleUploadImage_catch_def handleCapture_catch_def)

lemma inferred_same:
  "fst (handleUploadImage_inferred eng cfg outcome) = fst (handleCapture_inferred eng cfg outcome)"
  "(snd (handleUploadImage_inferred eng cfg outcome) = UploadAwaitingSpeech) =
   (snd (handleCapture_inferred eng cfg outcome) = CaptureAwaitingSpeech)"
  "snd (handleUploadImage_inferred eng cfg outcome) = UploadAwaitingSpeech \<or>
   snd (handleUploadImage_inferred eng cfg outcome) = Finished"
  "snd (handleCapture_inferred eng cfg outcome) = CaptureAwaitingSpeech \<or>
   snd (handleCapture_inferred eng cfg outcome) = Finished"
  by (simp_all add: handleUploadImage_inferred_def handleCapture_inferred_def catch_same
       split: sum.splits option.splits)

lemma spoken_same: "handleUploadImage_spoken eng outcome = handleCapture_spoken eng outcome"
  by (simp add: handleUploadImage_spoken_def handleCapture_spoken_def)

lemma capture_run_frame:
  "captureImage pg = Some img \<Longrightarrow> img \<noteq> [] \<Longrightarrow>
   capture_run eng cfg pg inference speech =
     entry_actions cfg img @ fst (handleCapture_inferred eng cfg inference) @
     (if snd (handleCapture_inferred eng cfg inference) = CaptureAwaitingSpeech
      then fst (handleCapture_spoken eng speech) else [])"
  using inferred_same(4) [of eng cfg inference]
  by (cases "handleCapture_inferred eng cfg inference")
     (auto simp: capture_run_def handleCapture_frame)

lemma upload_run_image:
  "img \<noteq> [] \<Longrightarrow>
   upload_run eng cfg (Some img) inference speech =
     entry_actions cfg img @ fst (handleUploadImage_inferred eng cfg inference) @
     (if snd (handleUploadImage_inferred eng cfg inference) = UploadAwaitingSpeech
      then fst (handleUploadImage_spoken eng speech) else [])"
  using inferred_same(3) [of eng cfg inference]
  by (cases "handleUploadImage_inferred eng cfg inference")
     (auto simp: upload_run_def handleUploadImage_loaded_image)

lemma upload_run_capture_run:
  "captureImage pg = Some img \<Longrightarrow> img \<noteq> [] \<Longrightarrow>
   upload_run eng cfg (Some img) inference speech = capture_run eng cfg pg inference speech"
  by (simp add: capture_run_frame upload_run_image inferred_same spoken_same)

subsection \<open>Concrete inputs\<close>

lemma camera_on_reached:
  "steps eng initial_system [ClickInitCamera, CameraSettled 0 demo_page (Inr demo_stream)]
     = Some camera_on"
  by (simp add: initial_system_def initial_state_def spawn_def resume_def commit_def task_at_def
      initCamera_def demo_page_def camera_on_def stream_cleanup_def)

lemma camera_on_ready [simp]:
  "isCameraActive (app camera_on)" "\<not> capture_disabled (app camera_on)"
  by (simp_all add: camera_on_def initial_state_def capture_disabled_def)

lemma captureImage_demo [simp]: "captureImage demo_page = Some demo_image"
  by (simp add: captureImage_def demo_page_def)

lemma demo_image_nonempty [simp]: "demo_image \<noteq> []"
  by (simp add: demo_image_def lit_def)

subsection \<open>Capture and inference\<close>

lemma captureImage_None_iff:
  "captureImage pg = None \<longleftrightarrow>
     \<not> video_mounted pg \<or> \<not> canvas_mounted pg \<or> videoWidth pg = 0 \<or> \<not> context2d pg"
  by (auto simp: captureImage_def)

lemma sendToAI_not_ok:
  "\<not> ok r \<Longrightarrow> sendToAI eng (Resolved r) =
     Inl (Err (lit ''Server error: '' @ dec (status r) @ lit '' - '' @ text_body r))"
  by (simp add: sendToAI_def sendToAI_try_def)

lemma handleCapture_inferred_failed:
  "sendToAI eng inference = Inl (Err m) \<Longrightarrow>
   handleCapture_inferred eng cfg inference = ([SetError m, SetProcessingState Error], Finished)"
  by (simp add: handleCapture_inferred_def handleCapture_catch_def)

lemma handleUploadImage_inferred_eq:
  "handleCapture_inferred eng cfg outcome = (acts, Finished) \<Longrightarrow>
   handleUploadImage_inferred eng cfg outcome = (acts, Finished)"
  using inferred_same(1,3) [of eng cfg outcome] inferred_same(2) [of eng cfg outcome]
  by (cases "handleUploadImage_inferred eng cfg outcome") auto

lemma inference_url_not_tts: "a @ lit ''/v1/chat/completions'' \<noteq> b @ lit ''/tts''"
proof
  assume "a @ lit ''/v1/chat/completions'' = b @ lit ''/tts''"
  then have "rev (a @ lit ''/v1/chat/completions'') = rev (b @ lit ''/tts'')"
    by simp
  then show False
    by (simp add: lit_def)
qed

subsection \<open>Speech\<close>

lemma generateSpeech_logs_only [simp]:
  "exec (fst (generateSpeech eng outcome)) s = s"
  "requests (fst (generateSpeech eng outcome)) = []"
  "state_writes (fst (generateSpeech eng outcome)) = []"
  "error_writes (fst (generateSpeech eng outcome)) = []"
  by (simp_all add: generateSpeech_def generateSpeech_try_def
      split: fetch_outcome.splits sum.splits option.splits prod.splits)

lemma field_simps [simp]:
  "field (JObj kvs) name = map_of kvs (lit name)"
  by (simp add: field_def)

lemma generateSpeech_failure:
  assumes "speech = Rejected e \<or>
     (\<exists>r. speech = Resolved r \<and>
        (\<not> ok r \<or> (\<exists>e'. json_body r = Inl e') \<or>
         (\<exists>data. json_body r = Inr data \<and>
            ((\<forall>v. field data ''success'' = Some v \<longrightarrow> \<not> truthy v) \<or>
             (\<forall>a. field data ''audio_base64'' = Some a \<longrightarrow> \<not> truthy a)))))"
  shows "snd (generateSpeech eng speech) = None"
proof -
  have obj: "snd (generateSpeech eng (Resolved r)) = None"
    if "json_body r = Inr data"
      and "(\<forall>v. field data ''success'' = Some v \<longrightarrow> \<not> truthy v) \<or>
           (\<forall>a. field data ''audio_base64'' = Some a \<longrightarrow> \<not> truthy a)" for r data
    using that
    by (cases data)
       (auto simp: generateSpeech_def generateSpeech_try_def field_def
          split: option.splits)
  have other: "snd (generateSpeech eng (Resolved r)) = None"
    if "\<not> ok r \<or> (\<exists>e'. json_body r = Inl e')" for r
    using that
    by (auto simp: generateSpeech_def generateSpeech_try_def)
  have rej: "snd (generateSpeech eng (Rejected e)) = None"
    by (simp add: generateSpeech_def generateSpeech_try_def)
  from assms show ?thesis
  proof (elim disjE exE conjE)
    assume "speech = Rejected e"
    then show ?thesis using rej by simp
  next
    fix r assume "speech = Resolved r" "\<not> ok r"
    then show ?thesis using other by simp
  next
    fix r e' assume "speech = Resolved r" "json_body r = Inl e'"
    then show ?thesis using other [of r] by auto
  next
    fix r data
    assume "speech = Resolved r" "json_body r = Inr data"
      "\<forall>v. field data ''success'' = Some v \<longrightarrow> \<not> truthy v"
    then show ?thesis using obj [of r data] by simp
  next
    fix r data
    assume "speech = Resolved r" "json_body r = Inr data"
      "\<forall>a. field data ''audio_base64'' = Some a \<longrightarrow> \<not> truthy a"
    then show ?thesis using obj [of r data] by simp
  qed
qed

lemma generateSpeech_delivers:
  assumes "ok r" and "json_body r = Inr data"
    and "field data ''success'' = Some v" and "truthy v"
    and "field data ''audio_base64'' = Some a" and "truthy a"
  shows "generateSpeech eng (Resolved r) = ([], Some a)"
  using assms
  by (cases data) (simp_all add: generateSpeech_def generateSpeech_try_def field_def)

lemma handleCapture_spoken_None:
  "snd (generateSpeech eng speech) = None \<Longrightarrow>
   handleCapture_spoken eng speech =
     (fst (generateSpeech eng speech) @ [SetProcessingState Success], Finished)"
  by (cases "generateSpeech eng speech") (simp add: handleCapture_spoken_def)

lemma handleCapture_spoken_quiet [simp]:
  "requests (fst (handleCapture_spoken eng outcome)) = []"
  "error_writes (fst (handleCapture_spoken eng outcome)) = []"
  "state_writes (fst (handleCapture_spoken eng outcome)) = [Success]"
  using generateSpeech_logs_only [of eng outcome]
  by (cases "generateSpeech eng outcome"; simp add: handleCapture_spoken_def split: option.splits)+

lemma handleCapture_inferred_text:
  "sendToAI eng inference = Inr (JStr text) \<Longrightarrow>
   handleCapture_inferred eng cfg inference =
     (if enableTTS cfg then
        if trim text = [] then
          ([SetOriginalResult (JStr text), SetEnhancedResult (JStr text),
            SetProcessingState GeneratingSpeech, SetProcessingState Success], Finished)
        else
          ([SetOriginalResult (JStr text), SetEnhancedResult (JStr text),
            SetProcessingState GeneratingSpeech,
            Fetch \<lparr>url = ttsServerUrl cfg @ lit ''/tts'', http_method = lit ''POST'',
                   headers = [(lit ''Content-Type'', lit ''application/json'')],
                   body = JObj [(lit ''text'', JStr text),
                                (lit ''language'', JStr (ttsLanguage cfg))]\<rparr>],
           CaptureAwaitingSpeech)
      else ([SetOriginalResult (JStr text), SetEnhancedResult (JStr text),
             SetProcessingState Success], Finished))"
  by (simp add: handleCapture_inferred_def generateSpeech_request_def)

text \<open>An upload run is the capture run of a page whose canvas yields the same image.\<close>

lemma upload_run_as_capture_run:
  assumes "img \<noteq> []"
  obtains pg where "captureImage pg = Some img"
    and "\<And>eng cfg inference speech.
           upload_run eng cfg (Some img) inference speech = capture_run eng cfg pg inference speech"
proof -
  define pg where "pg = \<lparr>video_mounted = True, canvas_mounted = True, videoWidth = 1,
    videoHeight = 1, context2d = True, toDataURL = img\<rparr>"
  have "captureImage pg = Some img"
    by (simp add: pg_def captureImage_def)
  then show thesis
    using assms upload_run_capture_run that by blast
qed

lemma sendToAI_inference_ok [simp]:
  "sendToAI eng (Resolved inference_ok) = Inr (JStr (lit ''A desk with a laptop.''))"
  by (simp add: sendToAI_def sendToAI_try_def inference_ok_def ok_def and_then_def
      first_choice_content_def lit_def)

lemma speech_failure_capture:
  assumes "captureImage pg = Some img" "img \<noteq> []"
    and "sendToAI eng inference = Inr (JStr text)"
    and "snd (generateSpeech eng speech) = None"
  shows "exec (capture_run eng cfg pg inference speech) s =
     s\<lparr>previewImage := Some img, processingState := Success, error := [],
       originalResult := JStr text, enhancedResult := JStr text, audioBase64 := JStr [],
       isPlaying := False\<rparr>"
    and "error_writes (capture_run eng cfg pg inference speech) = [[]]"
  using assms
  by (simp_all add: capture_run_frame handleCapture_inferred_text handleCapture_spoken_None
      entry_actions_def)


lemma sendToAI_Inr_cases:
  "sendToAI eng inference = Inr text \<Longrightarrow> \<not> enableTTS cfg \<Longrightarrow>
   handleCapture_inferred eng cfg inference =
     ([SetOriginalResult text, SetEnhancedResult text, SetProcessingState Success], Finished)"
  by (simp add: handleCapture_inferred_def)

lemma sendToAI_Inl_Err: "sendToAI eng inference = Inl err \<Longrightarrow> \<exists>m. err = Err m"
  by (auto simp: sendToAI_def split: sum.splits)

lemma flag_off_requests:
  assumes "captureImage pg = Some img" "img \<noteq> []" "\<not> enableTTS cfg"
  shows "requests (capture_run eng cfg pg inference speech) = [sendToAI_request cfg img] \<and>
         GeneratingSpeech \<notin> set (state_writes (capture_run eng cfg pg inference speech))"
proof (cases "sendToAI eng inference")
  case (Inl err)
  then obtain m where "sendToAI eng inference = Inl (Err m)"
    using sendToAI_Inl_Err by blast
  then show ?thesis
    using assms
    by (simp add: capture_run_frame handleCapture_inferred_failed entry_actions_def)
next
  case (Inr v)
  then show ?thesis
    using assms
    by (simp add: capture_run_frame sendToAI_Inr_cases entry_actions_def)
qed

lemma flag_off_success:
  assumes "captureImage pg = Some img" "img \<noteq> []" "\<not> enableTTS cfg"
    and "sendToAI eng inference = Inr text"
  shows "state_writes (capture_run eng cfg pg inference speech) = [Loading, Success] \<and>
         processingState (exec (capture_run eng cfg pg inference speech) s) = Success"
  using assms
  by (simp add: capture_run_frame sendToAI_Inr_cases entry_actions_def)

lemma blank_text_capture:
  assumes "captureImage pg = Some img" "img \<noteq> []"
    and "sendToAI eng inference = Inr (JStr text)" "trim text = []"
  shows "requests (capture_run eng cfg pg inference speech) = [sendToAI_request cfg img] \<and>
         processingState (exec (capture_run eng cfg pg inference speech) s) = Success"
  using assms
  by (simp add: capture_run_frame handleCapture_inferred_text entry_actions_def)

lemma generateSpeech_request_skipped:
  "\<not> enableTTS cfg \<or> (\<exists>t. v = JStr t \<and> trim t = []) \<Longrightarrow>
   generateSpeech_request eng cfg v = Inr None"
  by (auto simp: generateSpeech_request_def)

lemma trim_empty [simp]: "trim [] = []"
  by (simp add: trim_def)


lemma sendToAI_inference_blank [simp]:
  "sendToAI eng (Resolved inference_blank) = Inr (JStr [])"
  by (simp add: sendToAI_def sendToAI_try_def inference_blank_def ok_def and_then_def
      first_choice_content_def lit_def)

lemma inferred_requests_tts:
  "\<forall>q \<in> set (requests (fst (handleCapture_inferred eng cfg inference))).
     url q = ttsServerUrl cfg @ lit ''/tts''"
  by (simp add: handleCapture_inferred_def handleCapture_catch_def generateSpeech_request_def
      split: sum.splits option.splits jsval.splits)


lemma sendToAI_no_choice:
  "ok r \<Longrightarrow> json_body r = Inr (JObj [(lit ''choices'', JArr [])]) \<Longrightarrow>
   sendToAI eng (Resolved r) = Inl (Err (eng JUndefined (lit ''message'')))"
  by (simp add: sendToAI_def sendToAI_try_def first_choice_content_def and_then_def)

subsection \<open>Reachable states\<close>

lemma processingState_exec:
  "processingState (exec acts s) = last (processingState s # state_writes acts)"
proof (induction acts arbitrary: s)
  case Nil
  then show ?case by simp
next
  case (Cons a acts)
  then show ?case by (cases a) simp_all
qed

lemma exec_keeps_not_enhancing:
  assumes "Enhancing \<notin> set (state_writes acts)" and "processingState s \<noteq> Enhancing"
  shows "processingState (exec acts s) \<noteq> Enhancing"
proof (cases "state_writes acts = []")
  case True
  with assms(2) show ?thesis by (simp add: processingState_exec)
next
  case False
  then have "last (state_writes acts) \<in> set (state_writes acts)"
    by (rule last_in_set)
  with assms(1) have "last (state_writes acts) \<noteq> Enhancing"
    by metis
  with False show ?thesis
    by (simp add: processingState_exec)
qed

lemma state_writes_TrackStop [simp]: "state_writes (map TrackStop ts) = []"
  by (induction ts) simp_all

lemma no_enhancing_write:
  "Enhancing \<notin> set (state_writes (initCamera pg outcome))"
  "Enhancing \<notin> set (state_writes (stopCamera strm))"
  "Enhancing \<notin> set (state_writes (stream_cleanup strm))"
  "Enhancing \<notin> set (state_writes (fst (handleCapture cfg pg)))"
  "Enhancing \<notin> set (state_writes (fst (handleUploadImage cfg chosen)))"
  "Enhancing \<notin> set (state_writes (fst (handleUploadImage_loaded cfg result)))"
  "Enhancing \<notin> set (state_writes (fst (handleCapture_inferred eng cfg inference)))"
  "Enhancing \<notin> set (state_writes (fst (handleUploadImage_inferred eng cfg inference)))"
  "Enhancing \<notin> set (state_writes (fst (handleCapture_spoken eng speech)))"
  "Enhancing \<notin> set (state_writes (fst (handleUploadImage_spoken eng speech)))"
  by (simp_all add: initCamera_def stopCamera_def stream_cleanup_def handleCapture_def
      handleUploadImage_def handleUploadImage_loaded_def handleCapture_inferred_def
      handleCapture_catch_def inferred_same spoken_same
      split: sum.splits option.splits)

lemma commit_not_enhancing:
  assumes "Enhancing \<notin> set (state_writes acts)"
    and "processingState (app sys) \<noteq> Enhancing" and "Enhancing \<notin> set (state_writes (trace sys))"
  shows "processingState (app (commit sys acts)) \<noteq> Enhancing \<and>
         Enhancing \<notin> set (state_writes (trace (commit sys acts)))"
  using assms exec_keeps_not_enhancing [OF assms(1,2)] no_enhancing_write(3)
  by (simp add: commit_def Let_def)

lemma step_not_enhancing:
  assumes "step eng sys e = Some sys'"
    and "processingState (app sys) \<noteq> Enhancing" and "Enhancing \<notin> set (state_writes (trace sys))"
  shows "processingState (app sys') \<noteq> Enhancing \<and> Enhancing \<notin> set (state_writes (trace sys'))"
proof -
  have c: "\<And>acts. Enhancing \<notin> set (state_writes acts) \<Longrightarrow>
      processingState (app (commit sys acts)) \<noteq> Enhancing \<and>
      Enhancing \<notin> set (state_writes (trace (commit sys acts)))"
    using commit_not_enhancing assms(2,3) by blast
  show ?thesis
  proof (cases e)
    case ClickInitCamera
    with assms(1) c [of "[]"] show ?thesis
      by (auto simp: spawn_def split: if_splits)
  next
    case (CameraSettled i pg outcome)
    with assms(1) c [OF no_enhancing_write(1) [of pg outcome]] show ?thesis
      by (auto simp: resume_def split: task.splits)
  next
    case ClickStop
    with assms(1) c [OF no_enhancing_write(2)] show ?thesis
      by (auto split: if_splits)
  next
    case (ClickCapture pg)
    with assms(1) c [OF no_enhancing_write(4)] show ?thesis
      by (auto simp: spawn_def split: if_splits)
  next
    case (ChooseFile chosen)
    with assms(1) c [OF no_enhancing_write(5)] show ?thesis
      by (auto simp: spawn_def)
  next
    case (FileLoaded i result)
    with assms(1) c [OF no_enhancing_write(6)] show ?thesis
      by (auto simp: resume_def split: task.splits)
  next
    case (InferenceSettled i outcome)
    with assms(1) c [OF no_enhancing_write(7)] c [OF no_enhancing_write(8)] show ?thesis
      by (auto simp: resume_def split: task.splits)
  next
    case (SpeechSettled i outcome)
    with assms(1) c [OF no_enhancing_write(9)] c [OF no_enhancing_write(10)] show ?thesis
      by (auto simp: resume_def split: task.splits)
  next
    case (EditSettings ed)
    with assms(1) c [of "[SetSettings (apply_edit ed (settings (app sys)))]"] show ?thesis
      by (auto split: if_splits)
  next
    case ToggleSettings
    with assms(1) c [of "[SetShowSettings (\<not> showSettings (app sys))]"] show ?thesis
      by auto
  qed
qed

lemma reachable_not_enhancing:
  "reachable eng sys \<Longrightarrow>
   processingState (app sys) \<noteq> Enhancing \<and> Enhancing \<notin> set (state_writes (trace sys))"
proof (induction rule: reachable.induct)
  case reachable_initial
  show ?case by (simp add: initial_system_def initial_state_def)
next
  case (reachable_step sys e sys')
  then show ?case using step_not_enhancing by blast
qed

lemma steps_reachable:
  "reachable eng sys \<Longrightarrow> steps eng sys es = Some sys' \<Longrightarrow> reachable eng sys'"
proof (induction es arbitrary: sys)
  case Nil
  then show ?case by simp
next
  case (Cons e es)
  then show ?case
    by (auto split: option.splits intro: reachable_step)
qed


lemma capture_disabled_reachable:
  "reachable eng sys \<Longrightarrow>
   capture_disabled (app sys) \<longleftrightarrow>
     processingState (app sys) = Loading \<or> processingState (app sys) = GeneratingSpeech"
  using reachable_not_enhancing [of eng sys] by (auto simp: capture_disabled_def)

lemma capture_blocked_while_disabled:
  "processingState (app sys) = Loading \<or> processingState (app sys) = GeneratingSpeech \<Longrightarrow>
   step eng sys (ClickCapture pg) = None"
  by (auto simp: capture_disabled_def)



subsection \<open>A run as steps of the transition system\<close>

lemma commit_same_stream:
  "stream (exec acts (app sys)) = stream (app sys) \<Longrightarrow>
   commit sys acts = sys\<lparr>app := exec acts (app sys), trace := trace sys @ acts\<rparr>"
  by (simp add: commit_def Let_def)

lemma pipeline_keeps_stream [simp]:
  "stream (exec (entry_actions cfg img) s) = stream s"
  "stream (exec (fst (handleCapture_inferred eng cfg inference)) s) = stream s"
  by (simp_all add: entry_actions_def handleCapture_inferred_def handleCapture_catch_def
      split: sum.splits option.splits)

lemma spoken_keeps_stream [simp]:
  "stream (exec (fst (handleCapture_spoken eng speech)) s) = stream s"
  using generateSpeech_logs_only(1) [of eng speech]
  by (cases "generateSpeech eng speech") (simp add: handleCapture_spoken_def split: option.splits)

lemma steps_capture_run:
  assumes "isCameraActive (app sys)" and "\<not> capture_disabled (app sys)"
    and "captureImage pg = Some img" and "img \<noteq> []"
  shows "\<exists>sys'. steps eng sys
           ([ClickCapture pg, InferenceSettled (length (tasks sys)) inference] @
            (if snd (handleCapture_inferred eng (settings (app sys)) inference) = CaptureAwaitingSpeech
             then [SpeechSettled (length (tasks sys)) speech] else [])) = Some sys' \<and>
         app sys' = exec (capture_run eng (settings (app sys)) pg inference speech) (app sys) \<and>
         trace sys' = trace sys @ capture_run eng (settings (app sys)) pg inference speech \<and>
         tasks sys' = tasks sys @ [Finished]"
proof -
  let ?cfg = "settings (app sys)"
  let ?n = "length (tasks sys)"
  let ?inf = "handleCapture_inferred eng ?cfg inference"
  define sys1 where "sys1 = sys\<lparr>app := exec (entry_actions ?cfg img) (app sys),
      trace := trace sys @ entry_actions ?cfg img,
      tasks := tasks sys @ [CaptureAwaitingInference ?cfg]\<rparr>"
  define sys2 where "sys2 = sys1\<lparr>app := exec (fst ?inf) (app sys1),
      trace := trace sys1 @ fst ?inf,
      tasks := tasks sys @ [snd ?inf]\<rparr>"
  have s1: "step eng sys (ClickCapture pg) = Some sys1"
    using assms by (simp add: handleCapture_frame spawn_def commit_same_stream sys1_def)
  have s2: "step eng sys1 (InferenceSettled ?n inference) = Some sys2"
    by (simp add: sys1_def sys2_def task_at_def resume_def commit_same_stream)
  show ?thesis
  proof (cases "snd ?inf = CaptureAwaitingSpeech")
    case False
    then have fin: "snd ?inf = Finished"
      using inferred_same(4) [of eng ?cfg inference] by simp
    show ?thesis
      using assms(3,4) False fin s1 s2
      by (simp add: capture_run_frame sys2_def sys1_def)
  next
    case True
    have s3: "step eng sys2 (SpeechSettled ?n speech) =
        Some (sys2\<lparr>app := exec (fst (handleCapture_spoken eng speech)) (app sys2),
                trace := trace sys2 @ fst (handleCapture_spoken eng speech),
                tasks := tasks sys @ [snd (handleCapture_spoken eng speech)]\<rparr>)"
      using True by (simp add: sys2_def sys1_def task_at_def resume_def commit_same_stream)
    have fin: "snd (handleCapture_spoken eng speech) = Finished"
      by (simp add: handleCapture_spoken_def split: prod.splits)
    show ?thesis
      using assms(3,4) True s1 s2 s3 fin
      by (simp add: capture_run_frame sys2_def sys1_def)
  qed
qed


section \<open>Claims\<close>

text \<open>
  C1. When the inference endpoint answers with a status outside 200..299, the run ends in
  the \<open>error\<close> processing state, the error message is
  \<open>Server error: <status> - <body text>\<close> and so includes the response body, and the
  only request of the run is the inference request: no speech request is issued. This
  holds for a run started by capture and for one started by upload. The standalone page
  has no processing state; there the same message becomes the response text.
\<close>

theorem inference_http_error:
  assumes "\<not> ok r" and "img \<noteq> []"
  shows "(captureImage pg = Some img \<longrightarrow>
            (let acts = capture_run eng cfg pg (Resolved r) speech; s' = exec acts s in
               processingState s' = Error \<and>
               error s' = lit ''Server error: '' @ dec (status r) @ lit '' - '' @ text_body r \<and>
               requests acts = [sendToAI_request cfg img])) \<and>
         (let acts = upload_run eng cfg (Some img) (Resolved r) speech; s' = exec acts s in
               processingState s' = Error \<and>
               error s' = lit ''Server error: '' @ dec (status r) @ lit '' - '' @ text_body r \<and>
               requests acts = [sendToAI_request cfg img]) \<and>
         snd (handleCapture_inferred eng cfg (Resolved r)) = Finished \<and>
         snd (handleUploadImage_inferred eng cfg (Resolved r)) = Finished \<and>
         responseText (sendData_settled eng conv page (Resolved r)) =
           lit ''Server error: '' @ dec (status r) @ lit '' - '' @ text_body r"
proof -
  have inf: "handleCapture_inferred eng cfg (Resolved r) =
      ([SetError (lit ''Server error: '' @ dec (status r) @ lit '' - '' @ text_body r),
        SetProcessingState Error], Finished)"
    using assms(1) by (simp add: handleCapture_inferred_failed sendToAI_not_ok)
  note inf' = handleUploadImage_inferred_eq [OF inf]
  have page: "responseText (sendData_settled eng conv page (Resolved r)) =
           lit ''Server error: '' @ dec (status r) @ lit '' - '' @ text_body r"
    using assms(1) by (simp add: sendData_settled_def sendChatCompletionRequest_def dom_string_def)
  show ?thesis
    using assms(2) page
    by (simp add: capture_run_frame upload_run_image inf inf' entry_actions_def Let_def)
qed

theorem inference_http_error_witness:
  "\<not> ok http_500 \<and> demo_image \<noteq> [] \<and> captureImage demo_page = Some demo_image \<and>
   processingState (exec (capture_run demo_engine initial_settings demo_page (Resolved http_500)
      (Rejected NonError)) initial_state) = Error \<and>
   error (exec (capture_run demo_engine initial_settings demo_page (Resolved http_500)
      (Rejected NonError)) initial_state) = lit ''Server error: 500 - model not loaded'' \<and>
   requests (capture_run demo_engine initial_settings demo_page (Resolved http_500)
      (Rejected NonError)) = [sendToAI_request initial_settings demo_image]"
  using inference_http_error [of http_500 demo_image demo_page demo_engine initial_settings
      "Rejected NonError" initial_state]
  by (simp add: ok_def http_500_def Let_def dec.simps digit_def lit_def)

text \<open>
  C2. The capture control is the only guard against a second pipeline, and it does not
  cover the upload control: after a capture, a file chosen before the inference request
  has settled starts a second pipeline, so that two pipelines are in flight and two
  inference requests have been issued while the processing state is \<open>loading\<close>. On the
  page, \<open>sendData\<close> tests \<open>isProcessing\<close>, which stays set from start to stop, so a timer
  tick issues a second request while the first is pending.
\<close>

theorem pipelines_overlap:
  "(\<exists>sys. steps demo_engine initial_system overlap_events = Some sys \<and>
      reachable demo_engine sys \<and>
      tasks sys = [Finished, CaptureAwaitingInference initial_settings,
                   UploadAwaitingInference initial_settings] \<and>
      in_flight sys = 2 \<and>
      requests (trace sys) = [sendToAI_request initial_settings demo_image,
                              sendToAI_request initial_settings demo_image] \<and>
      processingState (app sys) = Loading) \<and>
   (\<exists>page reqs. page_steps demo_engine demo_conv (initial_page, []) page_overlap_events
        = Some (page, reqs) \<and>
      isProcessing page \<and> pending page = 2 \<and> length reqs = 2)"
proof -
  have a: "steps demo_engine initial_system overlap_events =
      Some \<lparr>app = initial_state\<lparr>stream := Some demo_stream, isCameraActive := True,
                 processingState := Loading, previewImage := Some demo_image\<rparr>,
            tasks = [Finished, CaptureAwaitingInference initial_settings,
                     UploadAwaitingInference initial_settings],
            trace = [SetStream (Some demo_stream), SetSrcObject demo_stream,
                     SetIsCameraActive True, SetError []] @
                    entry_actions initial_settings demo_image @
                    entry_actions initial_settings demo_image\<rparr>"
    by (simp add: overlap_events_def initial_system_def initial_state_def spawn_def resume_def
        commit_def task_at_def initCamera_def demo_page_def stream_cleanup_def
        handleCapture_def captureImage_def handleUploadImage_def handleUploadImage_loaded_def
        capture_disabled_def entry_actions_def Let_def demo_image_def lit_def)
  have r: "reachable demo_engine
      \<lparr>app = initial_state\<lparr>stream := Some demo_stream, isCameraActive := True,
                 processingState := Loading, previewImage := Some demo_image\<rparr>,
            tasks = [Finished, CaptureAwaitingInference initial_settings,
                     UploadAwaitingInference initial_settings],
            trace = [SetStream (Some demo_stream), SetSrcObject demo_stream,
                     SetIsCameraActive True, SetError []] @
                    entry_actions initial_settings demo_image @
                    entry_actions initial_settings demo_image\<rparr>"
    using steps_reachable [OF reachable_initial a] .
  have b: "page_steps demo_engine demo_conv (initial_page, []) page_overlap_events =
      Some (initial_page\<lparr>has_stream := True, intervalId := True, isProcessing := True,
              responseText := lit ''Processing started...'', inputs_disabled := True,
              startButton_text := lit ''Stop'', pending := 2\<rparr>,
            [sendChatCompletionRequest_request (baseURL initial_page) (instructionText initial_page) demo_image,
             sendChatCompletionRequest_request (baseURL initial_page) (instructionText initial_page) demo_image])"
    by (simp add: page_overlap_events_def initial_page_def handleStart_def sendData_def
        page_captureImage_def demo_page_def demo_image_def lit_def)
  show ?thesis
    using r by (simp add: a b in_flight_def entry_actions_def)
qed

text \<open>
  C3. When inference has returned a text and the speech request then fails (the fetch
  rejects, the response status is outside 200..299, the body is not JSON, or the parsed
  body has no truthy \<open>success\<close> or no truthy \<open>audio_base64\<close>, as with
  \<open>success: false\<close>), the run ends in \<open>success\<close> with the text as result, the audio
  payload still empty and the error message empty; the only error write of the run is the
  clearing at entry. In any state, the segment that follows the failed speech request only
  sets the processing state to \<open>success\<close>. This holds for capture and for upload.
\<close>

theorem speech_failure_is_soft:
  assumes "img \<noteq> []"
    and "sendToAI eng inference = Inr (JStr text)"
    and "speech = Rejected e \<or>
     (\<exists>r. speech = Resolved r \<and>
        (\<not> ok r \<or> (\<exists>e'. json_body r = Inl e') \<or>
         (\<exists>data. json_body r = Inr data \<and>
            ((\<forall>v. field data ''success'' = Some v \<longrightarrow> \<not> truthy v) \<or>
             (\<forall>a. field data ''audio_base64'' = Some a \<longrightarrow> \<not> truthy a)))))"
  shows "(captureImage pg = Some img \<longrightarrow>
            (let acts = capture_run eng cfg pg inference speech; s' = exec acts s in
               processingState s' = Success \<and> originalResult s' = JStr text \<and>
               enhancedResult s' = JStr text \<and> audioBase64 s' = JStr [] \<and> error s' = [] \<and>
               error_writes acts = [[]])) \<and>
         (let acts = upload_run eng cfg (Some img) inference speech; s' = exec acts s in
               processingState s' = Success \<and> originalResult s' = JStr text \<and>
               enhancedResult s' = JStr text \<and> audioBase64 s' = JStr [] \<and> error s' = [] \<and>
               error_writes acts = [[]]) \<and>
         exec (fst (handleCapture_spoken eng speech)) s = s\<lparr>processingState := Success\<rparr> \<and>
         exec (fst (handleUploadImage_spoken eng speech)) s = s\<lparr>processingState := Success\<rparr>"
proof -
  have none: "snd (generateSpeech eng speech) = None"
    using assms(3) by (rule generateSpeech_failure)
  have last: "exec (fst (handleCapture_spoken eng speech)) s = s\<lparr>processingState := Success\<rparr>"
    by (simp add: handleCapture_spoken_None [OF none])
  obtain pg' where pg': "captureImage pg' = Some img"
    and up: "upload_run eng cfg (Some img) inference speech = capture_run eng cfg pg' inference speech"
    using upload_run_as_capture_run [OF assms(1)] by metis
  show ?thesis
    using speech_failure_capture [OF _ assms(1,2) none] pg' last
    by (simp add: up Let_def spoken_same)
qed

theorem speech_failure_is_soft_witness:
  "demo_image \<noteq> [] \<and> captureImage demo_page = Some demo_image \<and>
   enableTTS initial_settings \<and>
   sendToAI demo_engine (Resolved inference_ok) = Inr (JStr (lit ''A desk with a laptop.'')) \<and>
   field (JObj [(lit ''success'', JBool False), (lit ''error'', JStr (lit ''x''))]) ''success'' =
     Some (JBool False) \<and> \<not> truthy (JBool False) \<and>
   json_body tts_refused =
     Inr (JObj [(lit ''success'', JBool False), (lit ''error'', JStr (lit ''x''))]) \<and>
   length (requests (capture_run demo_engine initial_settings demo_page (Resolved inference_ok)
             (Resolved tts_refused))) = 2 \<and>
   (let s' = exec (capture_run demo_engine initial_settings demo_page (Resolved inference_ok)
                    (Resolved tts_refused)) initial_state in
      processingState s' = Success \<and> originalResult s' = JStr (lit ''A desk with a laptop.'') \<and>
      audioBase64 s' = JStr [] \<and> error s' = [])"
proof -
  have failed: "Resolved tts_refused = Rejected NonError \<or>
     (\<exists>r. Resolved tts_refused = Resolved r \<and>
        (\<not> ok r \<or> (\<exists>e'. json_body r = Inl e') \<or>
         (\<exists>data. json_body r = Inr data \<and>
            ((\<forall>v. field data ''success'' = Some v \<longrightarrow> \<not> truthy v) \<or>
             (\<forall>a. field data ''audio_base64'' = Some a \<longrightarrow> \<not> truthy a)))))"
    by (simp add: tts_refused_def lit_def)
  have two: "length (requests (capture_run demo_engine initial_settings demo_page
      (Resolved inference_ok) (Resolved tts_refused))) = 2"
    by (simp add: capture_run_frame handleCapture_inferred_text entry_actions_def
        initial_settings_def trim_def js_whitespace_def lit_def)
  show ?thesis
    using speech_failure_is_soft [OF demo_image_nonempty sendToAI_inference_ok failed,
        where pg = demo_page and cfg = initial_settings and s = initial_state] two
    by (simp add: Let_def initial_settings_def tts_refused_def)
qed

text \<open>
  C4. When the speech flag is off, or inference returned a text that is empty (more
  generally, blank after trimming), the run issues the inference request and nothing else:
  no request goes to the \<open>/tts\<close> path, \<open>generateSpeech\<close> returns without a request, and
  the run ends in \<open>success\<close> once inference has succeeded. When the flag is off the
  processing state is never set to \<open>generating-speech\<close>: its writes are \<open>loading\<close> and
  then \<open>success\<close>. This holds for capture and for upload.
\<close>

theorem speech_skipped:
  assumes "img \<noteq> []"
    and "\<not> enableTTS cfg \<or> (\<exists>t. sendToAI eng inference = Inr (JStr t) \<and> trim t = [])"
  shows "(captureImage pg = Some img \<longrightarrow>
            (let acts = capture_run eng cfg pg inference speech in
               requests acts = [sendToAI_request cfg img] \<and>
               (\<forall>q \<in> set (requests acts). url q \<noteq> ttsServerUrl cfg @ lit ''/tts'') \<and>
               (\<forall>text. sendToAI eng inference = Inr text \<longrightarrow>
                  generateSpeech_request eng cfg text = Inr None \<and>
                  processingState (exec acts s) = Success) \<and>
               (\<not> enableTTS cfg \<longrightarrow>
                  GeneratingSpeech \<notin> set (state_writes acts) \<and>
                  (\<forall>text. sendToAI eng inference = Inr text \<longrightarrow>
                     state_writes acts = [Loading, Success])))) \<and>
         (let acts = upload_run eng cfg (Some img) inference speech in
               requests acts = [sendToAI_request cfg img] \<and>
               (\<forall>q \<in> set (requests acts). url q \<noteq> ttsServerUrl cfg @ lit ''/tts'') \<and>
               (\<forall>text. sendToAI eng inference = Inr text \<longrightarrow>
                  generateSpeech_request eng cfg text = Inr None \<and>
                  processingState (exec acts s) = Success) \<and>
               (\<not> enableTTS cfg \<longrightarrow>
                  GeneratingSpeech \<notin> set (state_writes acts) \<and>
                  (\<forall>text. sendToAI eng inference = Inr text \<longrightarrow>
                     state_writes acts = [Loading, Success])))"
proof -
  have main: "requests (capture_run eng cfg p inference speech) = [sendToAI_request cfg img] \<and>
        (\<forall>q \<in> set (requests (capture_run eng cfg p inference speech)).
            url q \<noteq> ttsServerUrl cfg @ lit ''/tts'') \<and>
        (\<forall>text. sendToAI eng inference = Inr text \<longrightarrow>
           generateSpeech_request eng cfg text = Inr None \<and>
           processingState (exec (capture_run eng cfg p inference speech) s) = Success) \<and>
        (\<not> enableTTS cfg \<longrightarrow>
           GeneratingSpeech \<notin> set (state_writes (capture_run eng cfg p inference speech)) \<and>
           (\<forall>text. sendToAI eng inference = Inr text \<longrightarrow>
              state_writes (capture_run eng cfg p inference speech) = [Loading, Success]))"
    if p: "captureImage p = Some img" for p
  proof (cases "enableTTS cfg")
    case False
    have "url (sendToAI_request cfg img) \<noteq> ttsServerUrl cfg @ lit ''/tts''"
      by (simp add: sendToAI_request_def inference_url_not_tts)
    with False show ?thesis
      using flag_off_requests [OF p assms(1) False, where eng = eng and inference = inference
          and speech = speech]
        flag_off_success [OF p assms(1) False, where eng = eng and inference = inference
          and speech = speech and s = s]
        generateSpeech_request_skipped [where cfg = cfg and eng = eng]
      by simp
  next
    case True
    with assms(2) obtain t where t: "sendToAI eng inference = Inr (JStr t)" "trim t = []"
      by blast
    have "url (sendToAI_request cfg img) \<noteq> ttsServerUrl cfg @ lit ''/tts''"
      by (simp add: sendToAI_request_def inference_url_not_tts)
    with True t show ?thesis
      using blank_text_capture [OF p assms(1) t, where cfg = cfg and speech = speech and s = s]
        generateSpeech_request_skipped [where cfg = cfg and v = "JStr t" and eng = eng]
      by simp
  qed
  obtain pg' where pg': "captureImage pg' = Some img"
    and up: "upload_run eng cfg (Some img) inference speech = capture_run eng cfg pg' inference speech"
    using upload_run_as_capture_run [OF assms(1)] by metis
  show ?thesis
    unfolding Let_def up
    using main [of pg] main [OF pg']
    by blast
qed

theorem speech_skipped_witness:
  "demo_image \<noteq> [] \<and> captureImage demo_page = Some demo_image \<and>
   \<not> enableTTS (initial_settings\<lparr>enableTTS := False\<rparr>) \<and>
   requests (capture_run demo_engine (initial_settings\<lparr>enableTTS := False\<rparr>) demo_page
      (Resolved inference_ok) (Rejected NonError)) =
     [sendToAI_request (initial_settings\<lparr>enableTTS := False\<rparr>) demo_image] \<and>
   state_writes (capture_run demo_engine (initial_settings\<lparr>enableTTS := False\<rparr>) demo_page
      (Resolved inference_ok) (Rejected NonError)) = [Loading, Success] \<and>
   enableTTS initial_settings \<and>
   sendToAI demo_engine (Resolved inference_blank) = Inr (JStr []) \<and> trim [] = [] \<and>
   requests (capture_run demo_engine initial_settings demo_page
      (Resolved inference_blank) (Rejected NonError)) =
     [sendToAI_request initial_settings demo_image] \<and>
   processingState (exec (capture_run demo_engine initial_settings demo_page
      (Resolved inference_blank) (Rejected NonError)) initial_state) = Success"
proof -
  have off: "\<not> enableTTS (initial_settings\<lparr>enableTTS := False\<rparr>) \<or>
    (\<exists>t. sendToAI demo_engine (Resolved inference_ok) = Inr (JStr t) \<and> trim t = [])"
    by simp
  have blank: "\<not> enableTTS initial_settings \<or>
    (\<exists>t. sendToAI demo_engine (Resolved inference_blank) = Inr (JStr t) \<and> trim t = [])"
    by simp
  show ?thesis
    using speech_skipped [OF demo_image_nonempty off, where pg = demo_page
        and speech = "Rejected NonError" and s = initial_state]
      speech_skipped [OF demo_image_nonempty blank, where pg = demo_page
        and speech = "Rejected NonError" and s = initial_state]
    by (simp add: Let_def initial_settings_def)
qed

text \<open>
  C5. When no frame is available (the video or canvas element is missing, the video has
  no width yet, or the canvas gives no drawing context), \<open>captureImage\<close> returns nothing,
  the only thing \<open>handleCapture\<close> does is to set the capture error message, and a click
  on the capture control leaves the processing state as it was, starts no pipeline and
  issues no request.
\<close>

theorem capture_without_frame:
  assumes "\<not> video_mounted pg \<or> \<not> canvas_mounted pg \<or> videoWidth pg = 0 \<or> \<not> context2d pg"
  shows "captureImage pg = None \<and>
         capture_run eng cfg pg inference speech = [SetError MSG_CAPTURE_FAILED] \<and>
         exec (capture_run eng cfg pg inference speech) s = s\<lparr>error := MSG_CAPTURE_FAILED\<rparr> \<and>
         (isCameraActive (app sys) \<and> \<not> capture_disabled (app sys) \<longrightarrow>
            (\<exists>sys'. step eng sys (ClickCapture pg) = Some sys' \<and>
               app sys' = (app sys)\<lparr>error := MSG_CAPTURE_FAILED\<rparr> \<and>
               processingState (app sys') = processingState (app sys) \<and>
               in_flight sys' = in_flight sys \<and>
               requests (trace sys') = requests (trace sys)))"
proof -
  from assms have none: "captureImage pg = None"
    by (simp add: captureImage_None_iff)
  then have hc: "\<And>c. handleCapture c pg = ([SetError MSG_CAPTURE_FAILED], Finished)"
    by (simp add: handleCapture_def)
  then have run: "capture_run eng cfg pg inference speech = [SetError MSG_CAPTURE_FAILED]"
    by (simp add: capture_run_def)
  have sys: "isCameraActive (app sys) \<and> \<not> capture_disabled (app sys) \<longrightarrow>
            (\<exists>sys'. step eng sys (ClickCapture pg) = Some sys' \<and>
               app sys' = (app sys)\<lparr>error := MSG_CAPTURE_FAILED\<rparr> \<and>
               processingState (app sys') = processingState (app sys) \<and>
               in_flight sys' = in_flight sys \<and>
               requests (trace sys') = requests (trace sys))"
    by (simp add: hc spawn_def commit_def in_flight_def Let_def)
  from none run sys show ?thesis by simp
qed

theorem capture_without_frame_witness:
  "videoWidth blank_page = 0 \<and>
   captureImage blank_page = None \<and>
   isCameraActive (app camera_on) \<and> \<not> capture_disabled (app camera_on) \<and>
   processingState (app camera_on) = Idle \<and>
   (\<exists>sys'. step demo_engine camera_on (ClickCapture blank_page) = Some sys' \<and>
      processingState (app sys') = Idle \<and> error (app sys') = MSG_CAPTURE_FAILED \<and>
      in_flight sys' = in_flight camera_on)"
  using capture_without_frame [of blank_page demo_engine initial_settings "Rejected NonError"
      "Rejected NonError" initial_state camera_on]
  by (auto simp: blank_page_def camera_on_def initial_state_def capture_disabled_def)

text \<open>
  C6. Both handlers enter \<open>loading\<close> the same way: after the setter calls that precede
  the inference request, the processing state is \<open>loading\<close>, the result, the enhanced
  result, the error message and the audio payload are empty, and the preview is the image
  just acquired.
\<close>

theorem loading_entry_clears:
  assumes "img \<noteq> []"
  shows "(captureImage pg = Some img \<longrightarrow>
           (let s' = exec (fst (handleCapture cfg pg)) s in
              processingState s' = Loading \<and> originalResult s' = JStr [] \<and>
              enhancedResult s' = JStr [] \<and> error s' = [] \<and> audioBase64 s' = JStr [] \<and>
              previewImage s' = Some img)) \<and>
         (let s' = exec (fst (handleUploadImage_loaded cfg (Some img))) s in
              processingState s' = Loading \<and> originalResult s' = JStr [] \<and>
              enhancedResult s' = JStr [] \<and> error s' = [] \<and> audioBase64 s' = JStr [] \<and>
              previewImage s' = Some img)"
  using assms
  by (simp add: handleCapture_frame handleUploadImage_loaded_image entry_actions_def Let_def)

theorem loading_entry_clears_witness:
  "demo_image \<noteq> [] \<and> captureImage demo_page = Some demo_image \<and>
   (let s' = exec (fst (handleCapture initial_settings demo_page))
               (initial_state\<lparr>processingState := Error, error := lit ''old error'',
                  originalResult := JStr (lit ''old result''),
                  audioBase64 := JStr (lit ''UklGRg=='')\<rparr>) in
      processingState s' = Loading \<and> originalResult s' = JStr [] \<and> error s' = [] \<and>
      audioBase64 s' = JStr [] \<and> previewImage s' = Some demo_image)"
  using loading_entry_clears [of demo_image demo_page initial_settings
      "initial_state\<lparr>processingState := Error, error := lit ''old error'',
                  originalResult := JStr (lit ''old result''),
                  audioBase64 := JStr (lit ''UklGRg=='')\<rparr>"]
  by (simp add: Let_def)

text \<open>
  C7. The request of \<open>sendToAI\<close> is a POST to the server URL followed by
  \<open>/v1/chat/completions\<close>; its body has \<open>max_tokens\<close> 128, \<open>temperature\<close> 0 and one
  message of role \<open>user\<close> whose content has exactly two parts, an \<open>image_url\<close> part
  carrying the image data URL and then a \<open>text\<close> part carrying the instruction. The page
  builds the same request. A run issues this request exactly once. On a response with
  status in 200..299 whose JSON body has a first choice with a message that has a
  content, \<open>sendToAI\<close> (and the page's function) returns that content.
\<close>

theorem inference_request_and_result:
  "(let req = sendToAI_request cfg img in
      url req = serverUrl cfg @ lit ''/v1/chat/completions'' \<and>
      http_method req = lit ''POST'' \<and>
      field (body req) ''max_tokens'' = Some (JNum 128) \<and>
      field (body req) ''temperature'' = Some (JNum 0) \<and>
      (\<exists>user_message image_part text_part image_ref.
         field (body req) ''messages'' = Some (JArr [user_message]) \<and>
         field user_message ''role'' = Some (JStr (lit ''user'')) \<and>
         field user_message ''content'' = Some (JArr [image_part, text_part]) \<and>
         field image_part ''type'' = Some (JStr (lit ''image_url'')) \<and>
         field image_part ''image_url'' = Some image_ref \<and>
         field image_ref ''url'' = Some (JStr img) \<and>
         field text_part ''type'' = Some (JStr (lit ''text'')) \<and>
         field text_part ''text'' = Some (JStr (instruction cfg))) \<and>
      sendChatCompletionRequest_request (serverUrl cfg) (instruction cfg) img = req \<and>
      (captureImage pg = Some img \<and> img \<noteq> [] \<longrightarrow>
         filter (\<lambda>q. url q = url req) (requests (capture_run eng cfg pg inference speech)) = [req] \<and>
         filter (\<lambda>q. url q = url req) (requests (upload_run eng cfg (Some img) inference speech)) = [req])) \<and>
   (ok r \<and> json_body r = Inr data \<and>
    field data ''choices'' = Some (JArr (choice # rest)) \<and>
    field choice ''message'' = Some message \<and>
    field message ''content'' = Some content \<longrightarrow>
      sendToAI eng (Resolved r) = Inr content \<and>
      sendChatCompletionRequest eng (Resolved r) = Inr content)"
proof -
  have shape: "url (sendToAI_request cfg img) = serverUrl cfg @ lit ''/v1/chat/completions'' \<and>
      http_method (sendToAI_request cfg img) = lit ''POST'' \<and>
      field (body (sendToAI_request cfg img)) ''max_tokens'' = Some (JNum 128) \<and>
      field (body (sendToAI_request cfg img)) ''temperature'' = Some (JNum 0)"
    by (simp add: sendToAI_request_def lit_def)
  have parts: "\<exists>user_message image_part text_part image_ref.
         field (body (sendToAI_request cfg img)) ''messages'' = Some (JArr [user_message]) \<and>
         field user_message ''role'' = Some (JStr (lit ''user'')) \<and>
         field user_message ''content'' = Some (JArr [image_part, text_part]) \<and>
         field image_part ''type'' = Some (JStr (lit ''image_url'')) \<and>
         field image_part ''image_url'' = Some image_ref \<and>
         field image_ref ''url'' = Some (JStr img) \<and>
         field text_part ''type'' = Some (JStr (lit ''text'')) \<and>
         field text_part ''text'' = Some (JStr (instruction cfg))"
    by (simp add: sendToAI_request_def lit_def)
  have page: "sendChatCompletionRequest_request (serverUrl cfg) (instruction cfg) img =
      sendToAI_request cfg img"
    by (simp add: sendChatCompletionRequest_request_def sendToAI_request_def)
  have once: "filter (\<lambda>q. url q = url (sendToAI_request cfg img))
                 (requests (capture_run eng cfg p inference speech)) = [sendToAI_request cfg img]"
    if "captureImage p = Some img" "img \<noteq> []" for p
    using that inferred_requests_tts [of eng cfg inference]
    by (auto simp: capture_run_frame entry_actions_def sendToAI_request_def
        inference_url_not_tts not_sym [OF inference_url_not_tts] filter_empty_conv)
  have runs: "captureImage pg = Some img \<and> img \<noteq> [] \<longrightarrow>
         filter (\<lambda>q. url q = url (sendToAI_request cfg img))
           (requests (capture_run eng cfg pg inference speech)) = [sendToAI_request cfg img] \<and>
         filter (\<lambda>q. url q = url (sendToAI_request cfg img))
           (requests (upload_run eng cfg (Some img) inference speech)) = [sendToAI_request cfg img]"
  proof (intro impI, elim conjE)
    assume pg: "captureImage pg = Some img" and img: "img \<noteq> []"
    show "filter (\<lambda>q. url q = url (sendToAI_request cfg img))
           (requests (capture_run eng cfg pg inference speech)) = [sendToAI_request cfg img] \<and>
         filter (\<lambda>q. url q = url (sendToAI_request cfg img))
           (requests (upload_run eng cfg (Some img) inference speech)) = [sendToAI_request cfg img]"
      using once [OF pg img] by (simp add: upload_run_capture_run [OF pg img])
  qed
  have result: "ok r \<and> json_body r = Inr data \<and>
    field data ''choices'' = Some (JArr (choice # rest)) \<and>
    field choice ''message'' = Some message \<and>
    field message ''content'' = Some content \<longrightarrow>
      sendToAI eng (Resolved r) = Inr content \<and>
      sendChatCompletionRequest eng (Resolved r) = Inr content"
    by (cases data; cases choice; cases message)
       (simp_all add: field_def sendToAI_def sendToAI_try_def sendChatCompletionRequest_def
          first_choice_content_def and_then_def)
  show ?thesis
    unfolding Let_def
    using shape parts page runs result by blast
qed

theorem inference_request_and_result_witness:
  "ok inference_ok \<and>
   json_body inference_ok = Inr (JObj [(lit ''choices'', JArr [JObj [(lit ''message'',
       JObj [(lit ''role'', JStr (lit ''assistant'')),
             (lit ''content'', JStr (lit ''A desk with a laptop.''))])]])]) \<and>
   sendToAI demo_engine (Resolved inference_ok) = Inr (JStr (lit ''A desk with a laptop.'')) \<and>
   captureImage demo_page = Some demo_image \<and> demo_image \<noteq> [] \<and>
   filter (\<lambda>q. url q = lit ''http://localhost:8080/v1/chat/completions'')
     (requests (capture_run demo_engine initial_settings demo_page (Resolved inference_ok)
        (Resolved tts_ok))) = [sendToAI_request initial_settings demo_image] \<and>
   length (requests (capture_run demo_engine initial_settings demo_page (Resolved inference_ok)
        (Resolved tts_ok))) = 2"
proof -
  have two: "length (requests (capture_run demo_engine initial_settings demo_page
      (Resolved inference_ok) (Resolved tts_ok))) = 2"
    by (simp add: capture_run_frame handleCapture_inferred_text entry_actions_def
        initial_settings_def trim_def js_whitespace_def lit_def)
  have u: "url (sendToAI_request initial_settings demo_image) =
      lit ''http://localhost:8080/v1/chat/completions''"
    by (simp add: sendToAI_request_def initial_settings_def lit_def)
  show ?thesis
    using inference_request_and_result [where cfg = initial_settings and img = demo_image
        and pg = demo_page and eng = demo_engine and inference = "Resolved inference_ok"
        and speech = "Resolved tts_ok" and r = inference_ok
        and data = "JObj [(lit ''choices'', JArr [JObj [(lit ''message'',
             JObj [(lit ''role'', JStr (lit ''assistant'')),
                   (lit ''content'', JStr (lit ''A desk with a laptop.''))])]])]"
        and choice = "JObj [(lit ''message'',
             JObj [(lit ''role'', JStr (lit ''assistant'')),
                   (lit ''content'', JStr (lit ''A desk with a laptop.''))])]"
        and rest = "[]"
        and message = "JObj [(lit ''role'', JStr (lit ''assistant'')),
                   (lit ''content'', JStr (lit ''A desk with a laptop.''))]"
        and content = "JStr (lit ''A desk with a laptop.'')"] two
    unfolding Let_def u
    by (simp add: inference_ok_def ok_def lit_def)
qed

text \<open>
  C8. \<open>stopCamera\<close> stops every track of the stream it holds, clears the stream and the
  camera-active flag; called again, with no stream held, it stops no track and changes
  nothing. The function has no failing branch.
\<close>

theorem stopCamera_idempotent:
  "(let acts = stopCamera (stream s); s' = exec acts s in
      stopped_tracks acts = (case stream s of None \<Rightarrow> [] | Some ms \<Rightarrow> getTracks ms) \<and>
      stream s' = None \<and> \<not> isCameraActive s' \<and>
      stopped_tracks (stopCamera (stream s')) = [] \<and>
      exec (stopCamera (stream s')) s' = s')"
  by (cases "stream s") (simp_all add: stopCamera_def Let_def)

theorem stopCamera_idempotent_witness:
  "stopped_tracks (stopCamera (stream (app camera_on))) = [0] \<and>
   stream (exec (stopCamera (stream (app camera_on))) (app camera_on)) = None \<and>
   \<not> isCameraActive (exec (stopCamera (stream (app camera_on))) (app camera_on))"
  using stopCamera_idempotent [of "app camera_on"]
  by (simp add: Let_def camera_on_def demo_stream_def)

text \<open>
  C9. After image acquisition the two handlers do the same: for the same image and
  settings, \<open>handleCapture\<close> and the \<open>onload\<close> callback of \<open>handleUploadImage\<close> perform
  the same sequence of setter calls and requests in each of their three segments, hence
  over the whole run, and they leave the same state.
\<close>

theorem capture_upload_equivalent:
  assumes "captureImage pg = Some img" and "img \<noteq> []"
  shows "fst (handleCapture cfg pg) = fst (handleUploadImage_loaded cfg (Some img)) \<and>
         snd (handleCapture cfg pg) = CaptureAwaitingInference cfg \<and>
         snd (handleUploadImage_loaded cfg (Some img)) = UploadAwaitingInference cfg \<and>
         fst (handleCapture_inferred eng cfg inference) =
           fst (handleUploadImage_inferred eng cfg inference) \<and>
         (snd (handleCapture_inferred eng cfg inference) = CaptureAwaitingSpeech \<longleftrightarrow>
          snd (handleUploadImage_inferred eng cfg inference) = UploadAwaitingSpeech) \<and>
         handleCapture_spoken eng speech = handleUploadImage_spoken eng speech \<and>
         capture_run eng cfg pg inference speech = upload_run eng cfg (Some img) inference speech \<and>
         (let s1 = exec (capture_run eng cfg pg inference speech) s;
              s2 = exec (upload_run eng cfg (Some img) inference speech) s in
            originalResult s1 = originalResult s2 \<and> audioBase64 s1 = audioBase64 s2 \<and>
            error s1 = error s2 \<and> previewImage s1 = previewImage s2 \<and>
            processingState s1 = processingState s2 \<and> s1 = s2)"
  using assms
  by (simp add: handleCapture_frame handleUploadImage_loaded_image inferred_same spoken_same
      upload_run_capture_run Let_def)

theorem capture_upload_equivalent_witness:
  "captureImage demo_page = Some demo_image \<and> demo_image \<noteq> [] \<and>
   capture_run demo_engine initial_settings demo_page (Resolved inference_ok) (Resolved tts_ok) =
   upload_run demo_engine initial_settings (Some demo_image) (Resolved inference_ok) (Resolved tts_ok) \<and>
   audioBase64 (exec (upload_run demo_engine initial_settings (Some demo_image)
      (Resolved inference_ok) (Resolved tts_ok)) initial_state) = JStr (lit ''UklGRg=='') \<and>
   processingState (exec (upload_run demo_engine initial_settings (Some demo_image)
      (Resolved inference_ok) (Resolved tts_ok)) initial_state) = Success"
proof -
  have run: "exec (capture_run demo_engine initial_settings demo_page (Resolved inference_ok)
      (Resolved tts_ok)) initial_state =
      initial_state\<lparr>previewImage := Some demo_image, processingState := Success,
        originalResult := JStr (lit ''A desk with a laptop.''),
        enhancedResult := JStr (lit ''A desk with a laptop.''),
        audioBase64 := JStr (lit ''UklGRg=='')\<rparr>"
    by (simp add: capture_run_frame handleCapture_inferred_text entry_actions_def
        handleCapture_spoken_def generateSpeech_def generateSpeech_try_def tts_ok_def ok_def
        initial_settings_def initial_state_def trim_def js_whitespace_def lit_def)
  show ?thesis
    using capture_upload_equivalent [OF captureImage_demo demo_image_nonempty,
        where cfg = initial_settings and eng = demo_engine and inference = "Resolved inference_ok"
        and speech = "Resolved tts_ok" and s = initial_state] run
    by (simp add: Let_def)
qed

text \<open>
  C10. No handler writes \<open>enhancing\<close>: in every reachable state of the component the
  processing state is one of \<open>idle\<close>, \<open>loading\<close>, \<open>generating-speech\<close>, \<open>success\<close> and
  \<open>error\<close>, and the trace of all actions so far holds no write of \<open>enhancing\<close>.
\<close>

theorem enhancing_unreachable:
  assumes "reachable eng sys"
  shows "processingState (app sys) \<noteq> Enhancing \<and>
         processingState (app sys) \<in> {Idle, Loading, GeneratingSpeech, Success, Error} \<and>
         Enhancing \<notin> set (state_writes (trace sys))"
  using reachable_not_enhancing [OF assms]
  by (cases "processingState (app sys)") simp_all

theorem enhancing_unreachable_witness:
  "(\<exists>sys. steps demo_engine camera_on
            [ClickCapture demo_page, InferenceSettled 1 (Resolved inference_ok)] = Some sys \<and>
      reachable demo_engine sys \<and>
      processingState (app sys) = GeneratingSpeech \<and>
      processingState (app sys) \<noteq> Enhancing \<and>
      Enhancing \<notin> set (state_writes (trace sys)))"
proof -
  obtain sys where sys: "steps demo_engine camera_on
            [ClickCapture demo_page, InferenceSettled 1 (Resolved inference_ok)] = Some sys"
    and gs: "processingState (app sys) = GeneratingSpeech"
    by (simp add: camera_on_def initial_state_def spawn_def resume_def commit_def task_at_def
        capture_disabled_def handleCapture_frame entry_actions_def handleCapture_inferred_text
        initial_settings_def trim_def js_whitespace_def lit_def Let_def)
  have "reachable demo_engine camera_on"
    using steps_reachable [OF reachable_initial camera_on_reached] .
  then have "reachable demo_engine sys"
    using sys by (rule steps_reachable)
  then show ?thesis
    using enhancing_unreachable [of demo_engine sys] sys gs by auto
qed

end
